theory Spec2Isabelle
  imports Complex_Main "HOL-Library.Word" "HOL-Library.Signed_Division" "HOL-Library.Monad_Syntax"
begin

unbundle bit_operations_syntax

section \<open>The storage type and the built-in operators of C++\<close>

text \<open>
  \<^verbatim>\<open>template< int QBits, typename DataType = int > class tFixedPoint\<close> is modelled at its
  default storage type: \<^verbatim>\<open>DataType = int\<close>, a 32-bit two's complement integer. The header
  computes its masks and rounding constants from the \<^verbatim>\<open>int\<close> literal \<^verbatim>\<open>1\<close>, so 32 bits is
  also the width in which those are evaluated.

  The header checks nothing at run time, and it leaves the range of every value to its
  caller. What C++ leaves undefined, or left undefined before C++20, is written out here:
  \<^item> \<^verbatim>\<open>+\<close>, \<^verbatim>\<open>-\<close>, \<^verbatim>\<open>*\<close> and \<^verbatim>\<open><<\<close> on \<^verbatim>\<open>int\<close> are the operations of two's complement: a result
    out of range wraps modulo \<open>2 ^ 32\<close>, which is what the word operations do;
  \<^item> \<^verbatim>\<open>>>\<close> on a negative \<^verbatim>\<open>int\<close> is the arithmetic shift;
  \<^item> a shift whose count is negative or not below the width has no result (\<open>None\<close>): this
    is the "negative shift count" the header relies on the compiler to report;
  \<^item> a division has no result (\<open>None\<close>) when the divisor is zero and when the quotient
    is not an \<^verbatim>\<open>int\<close>, which is the most negative \<^verbatim>\<open>int\<close> divided by \<open>-1\<close>: the processor
    traps on both.
\<close>

type_synonym tValue = "32 word"

definition int_shl :: "tValue \<Rightarrow> int \<Rightarrow> tValue option" where
  \<comment> \<open>\<^verbatim>\<open>x << n\<close>\<close>
  "int_shl x n = (if 0 \<le> n \<and> n < 32 then Some (push_bit (nat n) x) else None)"

definition int_shr :: "tValue \<Rightarrow> int \<Rightarrow> tValue option" where
  \<comment> \<open>\<^verbatim>\<open>x >> n\<close> on a signed operand: the arithmetic shift\<close>
  "int_shr x n = (if 0 \<le> n \<and> n < 32 then Some (signed_drop_bit (nat n) x) else None)"

definition int_div :: "tValue \<Rightarrow> tValue \<Rightarrow> tValue option" where
  \<comment> \<open>\<^verbatim>\<open>a / b\<close> on signed operands: the quotient truncated towards zero\<close>
  "int_div a b =
     (if b = 0 \<or> (a = - 2147483648 \<and> b = - 1) then None
      else Some (word_of_int (sint a sdiv sint b)))"

section \<open>Support macros\<close>

definition FIXEDPOINT_IMPL_DIVIDE :: "tValue \<Rightarrow> tValue \<Rightarrow> tValue option" where
  \<comment> \<open>\<^verbatim>\<open>(((divisor) + ((dividend) >> 1)) / (dividend))\<close>\<close>
  "FIXEDPOINT_IMPL_DIVIDE dividend divisor =
     do { h \<leftarrow> int_shr dividend 1; int_div (divisor + h) dividend }"

definition FIXEDPOINT_IMPL_ROUND :: "tValue \<Rightarrow> int \<Rightarrow> tValue option" where
  \<comment> \<open>\<^verbatim>\<open>(((value) + (1 << ((byQBits)-1))) >> (byQBits))\<close>\<close>
  "FIXEDPOINT_IMPL_ROUND v byQBits =
     do { half \<leftarrow> int_shl 1 (byQBits - 1); int_shr (v + half) byQBits }"

section \<open>The class\<close>

text \<open>
  A value of \<^verbatim>\<open>tFixedPoint<QBits>\<close> holds one field, \<^verbatim>\<open>value_\<close>, read by \<^verbatim>\<open>qValue()\<close>. The
  template parameter is part of the C++ type; the record carries it as \<open>cQBits\<close> (the
  class constant of that name) so that the type of a result can be stated. The field is
  named after its accessor, since a name cannot end in an underscore here.
\<close>

record tFixedPoint =
  cQBits :: int
  qValue :: tValue

subsection \<open>Construction\<close>

definition tFixedPoint_q :: "int \<Rightarrow> tValue \<Rightarrow> int \<Rightarrow> tFixedPoint option" where
  \<comment> \<open>\<^verbatim>\<open>tFixedPoint( tValue qValue, unsigned qBits ) : value_( qValue << (QBits - int(qBits)) )\<close>\<close>
  "tFixedPoint_q QBits qv qBits =
     do { v \<leftarrow> int_shl qv (QBits - qBits); Some \<lparr>cQBits = QBits, qValue = v\<rparr> }"

definition create :: "int \<Rightarrow> tValue \<Rightarrow> tFixedPoint option" where
  \<comment> \<open>\<^verbatim>\<open>static tFixedPoint create( tValue qValue ) { return tFixedPoint( qValue, QBits ); }\<close>\<close>
  "create QBits qv = tFixedPoint_q QBits qv QBits"

definition tFixedPoint_int :: "int \<Rightarrow> tValue \<Rightarrow> tFixedPoint option" where
  \<comment> \<open>\<^verbatim>\<open>tFixedPoint( tValue value ) : value_( value << QBits )\<close>\<close>
  "tFixedPoint_int QBits n =
     do { v \<leftarrow> int_shl n QBits; Some \<lparr>cQBits = QBits, qValue = v\<rparr> }"

definition tFixedPoint_parts :: "int \<Rightarrow> tValue \<Rightarrow> tValue \<Rightarrow> int \<Rightarrow> tFixedPoint option" where
  \<comment> \<open>\<^verbatim>\<open>tFixedPoint( tValue intPart, tValue absFracPart, unsigned qFracBits )\<close>\<close>
  "tFixedPoint_parts QBits intPart absFracPart qFracBits =
     do { i \<leftarrow> int_shl intPart QBits;
          f \<leftarrow> int_shl absFracPart (QBits - qFracBits);
          Some \<lparr>cQBits = QBits, qValue = (if 0 \<le>s intPart then i + f else i - f)\<rparr> }"

subsection \<open>Decimal constants\<close>

text \<open>
  \<^verbatim>\<open>FIXEDPOINT_CONSTANT( FPType, dec,frac )\<close> expands to
  \<^verbatim>\<open>FPType( dec, (((1 << FPType::cQBits)*frac + (2##frac-1##frac)/2)/(2##frac-1##frac)), FPType::cQBits )\<close>.
  The argument \<^verbatim>\<open>frac\<close> is a token, a sequence of decimal digits (most significant first),
  and it is used in two ways: pasted behind \<^verbatim>\<open>2\<close> and \<^verbatim>\<open>1\<close>, where it is read in base 10, and
  on its own, where C++ reads it as an integer literal. An integer literal of several
  digits that starts with \<^verbatim>\<open>0\<close> is octal, and it is ill-formed if it contains \<^verbatim>\<open>8\<close> or \<^verbatim>\<open>9\<close>.

  The type of a literal is the first that holds its value: of \<^verbatim>\<open>int\<close> and the signed 64-bit
  type for a decimal literal, of \<^verbatim>\<open>int\<close>, \<^verbatim>\<open>unsigned int\<close>, the signed and the unsigned 64-bit
  type for an octal one; a literal that none of them holds is ill-formed (\<open>None\<close>). The
  macro's arithmetic is done in the types of its operands, so a value here is a type
  with an integer, and each operator converts its operands to their common type (the one
  that comes later in that list) and reduces its result to that type. A signed division
  has no result where \<^verbatim>\<open>int_div\<close> has none. The quotient is converted to \<^verbatim>\<open>tValue\<close>, the type
  of the constructor's parameter, which keeps its low 32 bits.
\<close>

datatype ctype = CInt | CUInt | CLong | CULong

type_synonym cvalue = "ctype \<times> int"

fun convert :: "ctype \<Rightarrow> int \<Rightarrow> int" where
  "convert CInt k = signed_take_bit 31 k"
| "convert CUInt k = take_bit 32 k"
| "convert CLong k = signed_take_bit 63 k"
| "convert CULong k = take_bit 64 k"

fun conversion_rank :: "ctype \<Rightarrow> nat" where
  "conversion_rank CInt = 0"
| "conversion_rank CUInt = 1"
| "conversion_rank CLong = 2"
| "conversion_rank CULong = 3"

definition common_type :: "ctype \<Rightarrow> ctype \<Rightarrow> ctype" where
  "common_type t u = (if conversion_rank t \<le> conversion_rank u then u else t)"

definition c_add :: "cvalue \<Rightarrow> cvalue \<Rightarrow> cvalue" where
  "c_add x y =
     (let t = common_type (fst x) (fst y)
      in (t, convert t (convert t (snd x) + convert t (snd y))))"

definition c_sub :: "cvalue \<Rightarrow> cvalue \<Rightarrow> cvalue" where
  "c_sub x y =
     (let t = common_type (fst x) (fst y)
      in (t, convert t (convert t (snd x) - convert t (snd y))))"

definition c_mul :: "cvalue \<Rightarrow> cvalue \<Rightarrow> cvalue" where
  "c_mul x y =
     (let t = common_type (fst x) (fst y)
      in (t, convert t (convert t (snd x) * convert t (snd y))))"

definition c_div :: "cvalue \<Rightarrow> cvalue \<Rightarrow> cvalue option" where
  "c_div x y =
     (let t = common_type (fst x) (fst y); a = convert t (snd x); b = convert t (snd y)
      in if b = 0 \<or> convert t (a sdiv b) \<noteq> a sdiv b then None else Some (t, a sdiv b))"

definition decimal_value :: "nat list \<Rightarrow> int" where
  "decimal_value ds = foldl (\<lambda>a d. 10 * a + int d) 0 ds"

definition octal_value :: "nat list \<Rightarrow> int" where
  "octal_value ds = foldl (\<lambda>a d. 8 * a + int d) 0 ds"

definition decimal_literal :: "int \<Rightarrow> cvalue option" where
  "decimal_literal v =
     (if v < 2 ^ 31 then Some (CInt, v)
      else if v < 2 ^ 63 then Some (CLong, v)
      else None)"

definition octal_literal :: "int \<Rightarrow> cvalue option" where
  "octal_literal v =
     (if v < 2 ^ 31 then Some (CInt, v)
      else if v < 2 ^ 32 then Some (CUInt, v)
      else if v < 2 ^ 63 then Some (CLong, v)
      else if v < 2 ^ 64 then Some (CULong, v)
      else None)"

definition integer_literal :: "nat list \<Rightarrow> cvalue option" where
  \<comment> \<open>the digits as an integer literal\<close>
  "integer_literal ds =
     (if ds = [] \<or> \<not> list_all (\<lambda>d. d < 10) ds then None
      else if hd ds = 0 \<and> 1 < length ds
        then (if list_all (\<lambda>d. d < 8) ds then octal_literal (octal_value ds) else None)
        else decimal_literal (decimal_value ds))"

definition FIXEDPOINT_CONSTANT :: "int \<Rightarrow> tValue \<Rightarrow> nat list \<Rightarrow> tFixedPoint option" where
  \<comment> \<open>\<^verbatim>\<open>FPType( dec, (((1 << FPType::cQBits)*frac + (2##frac-1##frac)/2)/(2##frac-1##frac)), FPType::cQBits )\<close>\<close>
  "FIXEDPOINT_CONSTANT QBits dec frac' =
     do { one \<leftarrow> int_shl 1 QBits;
          f \<leftarrow> integer_literal frac';
          two_frac \<leftarrow> integer_literal (2 # frac');
          one_frac \<leftarrow> integer_literal (1 # frac');
          half \<leftarrow> c_div (c_sub two_frac one_frac) (CInt, 2);
          q \<leftarrow> c_div (c_add (c_mul (CInt, sint one) f) half) (c_sub two_frac one_frac);
          tFixedPoint_parts QBits dec (word_of_int (snd q)) QBits }"

subsection \<open>Conversions\<close>

definition truncatedTo :: "int \<Rightarrow> tFixedPoint \<Rightarrow> tFixedPoint option" where
  \<comment> \<open>\<^verbatim>\<open>truncatedTo<QBits2>()\<close>: \<^verbatim>\<open>create( value_ >> (QBits - QBits2) )\<close>\<close>
  "truncatedTo QBits2 x = do { r \<leftarrow> int_shr (qValue x) (cQBits x - QBits2); create QBits2 r }"

definition roundedTo :: "int \<Rightarrow> tFixedPoint \<Rightarrow> tFixedPoint option" where
  \<comment> \<open>\<^verbatim>\<open>roundedTo<QBits2>()\<close>: \<^verbatim>\<open>create( FIXEDPOINT_IMPL_ROUND( value_, (QBits - QBits2) ) )\<close>\<close>
  "roundedTo QBits2 x =
     do { r \<leftarrow> FIXEDPOINT_IMPL_ROUND (qValue x) (cQBits x - QBits2); create QBits2 r }"

definition increasedTo :: "int \<Rightarrow> tFixedPoint \<Rightarrow> tFixedPoint option" where
  \<comment> \<open>\<^verbatim>\<open>increasedTo<QBits2>()\<close>: \<^verbatim>\<open>create( value_ << (QBits2 - QBits) )\<close>\<close>
  "increasedTo QBits2 x = do { r \<leftarrow> int_shl (qValue x) (QBits2 - cQBits x); create QBits2 r }"

subsection \<open>Arithmetic\<close>

text \<open>
  C++ selects the operators that take \<^verbatim>\<open>const tFixedPoint&\<close> when both operands have the
  same type, and the member templates over \<^verbatim>\<open>tFixedPoint<QBits2,DataType2>\<close> (suffix \<open>_x\<close>
  here) when the types differ.
\<close>

definition operator_div :: "tFixedPoint \<Rightarrow> tFixedPoint \<Rightarrow> tValue option" where
  \<comment> \<open>\<^verbatim>\<open>tValue operator/( const tFixedPoint& value ) const\<close>\<close>
  "operator_div x y = FIXEDPOINT_IMPL_DIVIDE (qValue x) (qValue y)"

text \<open>
  Modelled from the spec: \<^verbatim>\<open>roundedBy_\<close>, the helper the same-type \<^verbatim>\<open>operator*=\<close> calls, is
  declared nowhere in the header. The spec gives the result of a same-type \<^verbatim>\<open>a *= b\<close>
  (both \<open>p\<close> bits) as \<^verbatim>\<open>round(rawA*rawB, p)\<close>, "consistent with the documented rounding
  macro", so the helper is that macro.
\<close>

definition roundedBy' :: "tValue \<Rightarrow> int \<Rightarrow> tValue option" where
  "roundedBy' v byQBits = FIXEDPOINT_IMPL_ROUND v byQBits"

definition operator_mul_assign :: "tFixedPoint \<Rightarrow> tFixedPoint \<Rightarrow> tFixedPoint option" where
  \<comment> \<open>\<^verbatim>\<open>value_ = roundedBy_( value_ * value.value_, QBits ); return *this;\<close>\<close>
  "operator_mul_assign x y =
     do { r \<leftarrow> roundedBy' (qValue x * qValue y) (cQBits x); Some (x\<lparr>qValue := r\<rparr>) }"

definition operator_mul :: "tFixedPoint \<Rightarrow> tFixedPoint \<Rightarrow> tFixedPoint option" where
  \<comment> \<open>\<^verbatim>\<open>tFixedPoint<QBits+QBits,DataType> operator*( const tFixedPoint& value ) const\<close>\<close>
  "operator_mul x y = create (cQBits x + cQBits x) (qValue x * qValue y)"

definition operator_mul_x :: "tFixedPoint \<Rightarrow> tFixedPoint \<Rightarrow> tFixedPoint option" where
  \<comment> \<open>\<^verbatim>\<open>tFixedPoint<QBits+QBits2,DataType> operator*( const tFixedPoint<QBits2,DataType2>& value ) const\<close>\<close>
  "operator_mul_x x y = create (cQBits x + cQBits y) (qValue x * qValue y)"

definition operator_div_x :: "tFixedPoint \<Rightarrow> tFixedPoint \<Rightarrow> tFixedPoint option" where
  \<comment> \<open>\<^verbatim>\<open>tFixedPoint<QBits-QBits2,DataType> operator/( const tFixedPoint<QBits2,DataType2>& value ) const\<close>\<close>
  "operator_div_x x y =
     do { r \<leftarrow> FIXEDPOINT_IMPL_DIVIDE (qValue x) (qValue y); create (cQBits x - cQBits y) r }"

definition operator_div_assign_x :: "tFixedPoint \<Rightarrow> tFixedPoint \<Rightarrow> tFixedPoint option" where
  \<comment> \<open>\<^verbatim>\<open>value_ = FIXEDPOINT_IMPL_DIVIDE( (value_ << (QBits-QBits2)), value.qValue() ); return *this;\<close>\<close>
  "operator_div_assign_x x y =
     do { s \<leftarrow> int_shl (qValue x) (cQBits x - cQBits y);
          r \<leftarrow> FIXEDPOINT_IMPL_DIVIDE s (qValue y);
          Some (x\<lparr>qValue := r\<rparr>) }"

subsection \<open>Comparisons\<close>

definition operator_eq :: "tFixedPoint \<Rightarrow> tFixedPoint \<Rightarrow> bool" where
  \<comment> \<open>\<^verbatim>\<open>bool operator==( const tFixedPoint& value ) const { return (value_ == value.value_); }\<close>\<close>
  "operator_eq x y \<longleftrightarrow> qValue x = qValue y"

definition operator_lt :: "tFixedPoint \<Rightarrow> tFixedPoint \<Rightarrow> bool" where
  \<comment> \<open>\<^verbatim>\<open>bool operator< ( const tFixedPoint& value ) const { return (value_ <  value.value_); }\<close>\<close>
  "operator_lt x y \<longleftrightarrow> qValue x <s qValue y"

definition operator_le :: "tFixedPoint \<Rightarrow> tFixedPoint \<Rightarrow> bool" where
  \<comment> \<open>\<^verbatim>\<open>bool operator<=( const tFixedPoint& value ) const { return (value_ <= value.value_); }\<close>\<close>
  "operator_le x y \<longleftrightarrow> qValue x \<le>s qValue y"

definition operator_ge :: "tFixedPoint \<Rightarrow> tFixedPoint \<Rightarrow> bool" where
  \<comment> \<open>\<^verbatim>\<open>bool operator>=( const tFixedPoint& value ) const { return (value_ >= value.value_); }\<close>\<close>
  "operator_ge x y \<longleftrightarrow> qValue y \<le>s qValue x"

definition operator_gt :: "tFixedPoint \<Rightarrow> tFixedPoint \<Rightarrow> bool" where
  \<comment> \<open>\<^verbatim>\<open>bool operator> ( const tFixedPoint& value ) const { return (value_ >  value.value_); }\<close>\<close>
  "operator_gt x y \<longleftrightarrow> qValue y <s qValue x"

subsection \<open>Floating point\<close>

text \<open>
  A \<^verbatim>\<open>double\<close> is modelled by the real number it denotes and the arithmetic on it is
  exact. That is the arithmetic of C++ wherever this model gives a result on the path
  taken below, where the \<^verbatim>\<open>double\<close> is converted from an \<^verbatim>\<open>int\<close> \<open>n\<close>: then \<open>n\<close>, its product
  with the power of two \<^verbatim>\<open>tValue(1) << QBits\<close> and the sum with \<^verbatim>\<open>0.5\<close> are multiples of one
  half below \<open>2 ^ 52\<close> in magnitude, which a \<^verbatim>\<open>double\<close> holds exactly, unless the sum is
  outside the range of \<^verbatim>\<open>int\<close>. The conversion \<^verbatim>\<open>tValue( d )\<close> truncates towards zero and has
  no result outside that range.
\<close>

type_synonym double = real

definition tValue_of_double :: "double \<Rightarrow> tValue option" where
  \<comment> \<open>\<^verbatim>\<open>tValue( d )\<close>\<close>
  "tValue_of_double d =
     (let t = (if 0 \<le> d then \<lfloor>d\<rfloor> else \<lceil>d\<rceil>)
      in if - (2 ^ 31) \<le> t \<and> t < 2 ^ 31 then Some (word_of_int t) else None)"

definition double_of_tValue :: "tValue \<Rightarrow> double" where
  \<comment> \<open>the standard conversion from \<^verbatim>\<open>int\<close> to \<^verbatim>\<open>double\<close>, which is exact\<close>
  "double_of_tValue n = real_of_int (sint n)"

definition rounded' :: "int \<Rightarrow> double \<Rightarrow> tValue option" where
  \<comment> \<open>\<^verbatim>\<open>static tValue rounded_( double value ) { return tValue( value * (tValue(1) << QBits) + 0.5 ); }\<close>\<close>
  "rounded' QBits v =
     do { one \<leftarrow> int_shl 1 QBits; tValue_of_double (v * double_of_tValue one + 0.5) }"

definition operator_lt_double :: "tFixedPoint \<Rightarrow> double \<Rightarrow> bool option" where
  \<comment> \<open>\<^verbatim>\<open>bool operator< ( double value ) const { return (value_ <  rounded_( value )); }\<close>\<close>
  "operator_lt_double x v = do { r \<leftarrow> rounded' (cQBits x) v; Some (qValue x <s r) }"

definition operator_le_double :: "tFixedPoint \<Rightarrow> double \<Rightarrow> bool option" where
  \<comment> \<open>\<^verbatim>\<open>bool operator<=( double value ) const { return (value_ <= rounded_( value )); }\<close>\<close>
  "operator_le_double x v = do { r \<leftarrow> rounded' (cQBits x) v; Some (qValue x \<le>s r) }"

definition operator_ge_double :: "tFixedPoint \<Rightarrow> double \<Rightarrow> bool option" where
  \<comment> \<open>\<^verbatim>\<open>bool operator>=( double value ) const { return (value_ >= rounded_( value )); }\<close>\<close>
  "operator_ge_double x v = do { r \<leftarrow> rounded' (cQBits x) v; Some (r \<le>s qValue x) }"

definition operator_gt_double :: "tFixedPoint \<Rightarrow> double \<Rightarrow> bool option" where
  \<comment> \<open>\<^verbatim>\<open>bool operator> ( double value ) const { return (value_ >  rounded_( value )); }\<close>\<close>
  "operator_gt_double x v = do { r \<leftarrow> rounded' (cQBits x) v; Some (r <s qValue x) }"

subsection \<open>External helpers\<close>

text \<open>
  The free comparison operators take a \<^verbatim>\<open>DataType lhs\<close> and a fixed-point \<^verbatim>\<open>rhs\<close> and
  return a member comparison of \<^verbatim>\<open>rhs\<close> with \<^verbatim>\<open>lhs\<close>, for instance \<^verbatim>\<open>(rhs >= lhs)\<close>. Which
  member that is depends on \<^verbatim>\<open>FIXEDPOINT_ENABLE_FLOATINGPOINT_SUPPORT\<close>, which the header
  defines; the first argument of the definitions below is that switch.
  \<^item> With it, two members are viable for an \<^verbatim>\<open>int\<close> argument: the one taking
    \<^verbatim>\<open>const tFixedPoint&\<close>, through the converting constructor \<^verbatim>\<open>tFixedPoint( tValue )\<close>,
    and the one taking \<^verbatim>\<open>double\<close>, through the standard conversion from \<^verbatim>\<open>int\<close>. Overload
    resolution ranks a standard conversion above a user-defined one, so the \<^verbatim>\<open>double\<close>
    member is called. (The member templates do not take part: their parameter
    \<^verbatim>\<open>tFixedPoint<QBits2,DataType2>\<close> cannot be deduced from an \<^verbatim>\<open>int\<close>.)
  \<^item> Without it the \<^verbatim>\<open>double\<close> members do not exist and the converting constructor is used.
\<close>

definition operator_lt_free :: "bool \<Rightarrow> tValue \<Rightarrow> tFixedPoint \<Rightarrow> bool option" where
  \<comment> \<open>\<^verbatim>\<open>bool operator< ( DataType lhs, const tFixedPoint<QBits,DataType>& rhs ) { return (rhs >= lhs); }\<close>\<close>
  "operator_lt_free fp_support lhs rhs =
     (if fp_support then operator_ge_double rhs (double_of_tValue lhs)
      else do { l \<leftarrow> tFixedPoint_int (cQBits rhs) lhs; Some (operator_ge rhs l) })"

definition operator_le_free :: "bool \<Rightarrow> tValue \<Rightarrow> tFixedPoint \<Rightarrow> bool option" where
  \<comment> \<open>\<^verbatim>\<open>bool operator<=( DataType lhs, const tFixedPoint<QBits,DataType>& rhs ) { return (rhs >  lhs); }\<close>\<close>
  "operator_le_free fp_support lhs rhs =
     (if fp_support then operator_gt_double rhs (double_of_tValue lhs)
      else do { l \<leftarrow> tFixedPoint_int (cQBits rhs) lhs; Some (operator_gt rhs l) })"

definition operator_ge_free :: "bool \<Rightarrow> tValue \<Rightarrow> tFixedPoint \<Rightarrow> bool option" where
  \<comment> \<open>\<^verbatim>\<open>bool operator>=( DataType lhs, const tFixedPoint<QBits,DataType>& rhs ) { return (rhs <  lhs); }\<close>\<close>
  "operator_ge_free fp_support lhs rhs =
     (if fp_support then operator_lt_double rhs (double_of_tValue lhs)
      else do { l \<leftarrow> tFixedPoint_int (cQBits rhs) lhs; Some (operator_lt rhs l) })"

definition operator_gt_free :: "bool \<Rightarrow> tValue \<Rightarrow> tFixedPoint \<Rightarrow> bool option" where
  \<comment> \<open>\<^verbatim>\<open>bool operator> ( DataType lhs, const tFixedPoint<QBits,DataType>& rhs ) { return (rhs <= lhs); }\<close>\<close>
  "operator_gt_free fp_support lhs rhs =
     (if fp_support then operator_le_double rhs (double_of_tValue lhs)
      else do { l \<leftarrow> tFixedPoint_int (cQBits rhs) lhs; Some (operator_le rhs l) })"

subsection \<open>Miscellaneous\<close>

definition absolute :: "tFixedPoint \<Rightarrow> tValue" where
  \<comment> \<open>\<^verbatim>\<open>(value_ >= 0)? value_ : -value_\<close>\<close>
  "absolute x = (if 0 \<le>s qValue x then qValue x else - qValue x)"

definition intPart :: "tFixedPoint \<Rightarrow> tValue option" where
  \<comment> \<open>\<^verbatim>\<open>value_ >> QBits\<close>\<close>
  "intPart x = int_shr (qValue x) (cQBits x)"

definition fracPart :: "tFixedPoint \<Rightarrow> tValue option" where
  \<comment> \<open>\<^verbatim>\<open>(value_ >= 0)? (value_ & ((1 << QBits) - 1)) : -((-value_) & ((1 << QBits) - 1))\<close>\<close>
  "fracPart x =
     do { one \<leftarrow> int_shl 1 (cQBits x);
          Some (if 0 \<le>s qValue x then qValue x AND (one - 1)
                else - ((- qValue x) AND (one - 1))) }"

definition absFracPart :: "tFixedPoint \<Rightarrow> tValue option" where
  \<comment> \<open>\<^verbatim>\<open>((value_ >= 0)? value_ : -value_) & ((1 << QBits) - 1)\<close>\<close>
  "absFracPart x =
     do { one \<leftarrow> int_shl 1 (cQBits x);
          Some ((if 0 \<le>s qValue x then qValue x else - qValue x) AND (one - 1)) }"

text \<open>
  \<^verbatim>\<open>fracPlaces\<close> has two \<^verbatim>\<open>while\<close> statements. The first, \<^verbatim>\<open>while (decimals-- > 0) dec_qx *= 10;\<close>, runs
  once for each unit of the unsigned \<^verbatim>\<open>decimals\<close>. The second,
  \<^verbatim>\<open>while (frac != 0) { if (frac & mask) { frac -= mask; result += dec_qx; } dec_qx >>= 1; mask >>= 1; }\<close>,
  has no bound of its own, so it is a partial function: \<open>None\<close> is the loop that never
  ends. Its first argument counts the passes through the body; it is not a variable of
  the source, and \<open>frac'\<close> and \<open>mask'\<close> are the source's \<^verbatim>\<open>frac\<close> and \<^verbatim>\<open>mask\<close>.
  \<^verbatim>\<open>dec_qx\<close> is \<^verbatim>\<open>unsigned\<close> and is shifted logically; \<^verbatim>\<open>mask\<close> is a \<^verbatim>\<open>tValue\<close> and
  is shifted arithmetically.
\<close>

fun scale_decimals :: "nat \<Rightarrow> 32 word \<Rightarrow> 32 word" where
  "scale_decimals 0 dec_qx = dec_qx"
| "scale_decimals (Suc decimals) dec_qx = scale_decimals decimals (dec_qx * 10)"

partial_function (option) fracPlaces_loop ::
  "nat \<Rightarrow> tValue \<Rightarrow> tValue \<Rightarrow> 32 word \<Rightarrow> tValue \<Rightarrow> (tValue \<times> nat) option" where
  "fracPlaces_loop passes frac' result dec_qx mask' =
     (if frac' = 0 then Some (result, passes)
      else if frac' AND mask' \<noteq> 0
        then fracPlaces_loop (Suc passes) (frac' - mask') (result + dec_qx)
               (drop_bit 1 dec_qx) (signed_drop_bit 1 mask')
        else fracPlaces_loop (Suc passes) frac' result
               (drop_bit 1 dec_qx) (signed_drop_bit 1 mask'))"

definition fracPlaces :: "tFixedPoint \<Rightarrow> 32 word \<Rightarrow> tValue option" where
  \<comment> \<open>\<^verbatim>\<open>tValue fracPlaces( unsigned decimals )\<close>, with \<^verbatim>\<open>cXBits = 4\<close>; it returns
      \<^verbatim>\<open>((result + (1 << (cXBits-1))) >> cXBits)\<close>\<close>
  "fracPlaces x decimals =
     do { frac' \<leftarrow> absFracPart x;
          dec_qx \<leftarrow> int_shl 1 (4 - 1);
          mask' \<leftarrow> int_shl 1 (cQBits x - 1);
          (result, passes) \<leftarrow>
            fracPlaces_loop 0 frac' 0 (scale_decimals (unat decimals) dec_qx) mask';
          half \<leftarrow> int_shl 1 (4 - 1);
          int_shr (result + half) 4 }"

section \<open>The operators of C++ in terms of integers\<close>

lemma int_shl_Some: "0 \<le> n \<Longrightarrow> n < 32 \<Longrightarrow> int_shl x n = Some (push_bit (nat n) x)"
  by (simp add: int_shl_def)

lemma int_shr_Some: "0 \<le> n \<Longrightarrow> n < 32 \<Longrightarrow> int_shr x n = Some (signed_drop_bit (nat n) x)"
  by (simp add: int_shr_def)

lemma create_eq: "create Q v = Some \<lparr>cQBits = Q, qValue = v\<rparr>"
  by (simp add: create_def tFixedPoint_q_def int_shl_def)

lemma FIXEDPOINT_IMPL_DIVIDE_eq:
  "FIXEDPOINT_IMPL_DIVIDE dividend divisor =
     (if dividend = 0 \<or> (dividend = - 1 \<and> divisor = - 2147483647) then None
      else Some (word_of_int (sint (divisor + signed_drop_bit 1 dividend) sdiv sint dividend)))"
proof -
  have "divisor + signed_drop_bit 1 (- 1) = - 2147483648 \<longleftrightarrow> divisor = - 2147483647"
  proof -
    have "signed_drop_bit 1 (- 1 :: tValue) = - 1"
      by (rule signed_word_eqI) (simp add: sint_signed_drop_bit_eq)
    moreover have "divisor - 1 = - 2147483648 \<longleftrightarrow> divisor = - 2147483648 + 1"
      by (rule diff_eq_eq)
    ultimately show ?thesis
      by simp
  qed
  then show ?thesis
    by (auto simp add: FIXEDPOINT_IMPL_DIVIDE_def int_shr_def int_div_def)
qed

lemma sint_signed_drop_bit_1: "sint (signed_drop_bit 1 (x :: tValue)) = sint x div 2"
  by (simp add: sint_signed_drop_bit_eq drop_bit_eq_div)

lemma sint_in_range:
  "- (2 ^ 31) \<le> k \<Longrightarrow> k < 2 ^ 31 \<Longrightarrow> sint (word_of_int k :: tValue) = k"
  by (simp add: signed_of_int signed_take_bit_int_eq_self)

lemma sint_add_in_range:
  "- (2 ^ 31) \<le> sint (x :: tValue) + sint y \<Longrightarrow> sint x + sint y < 2 ^ 31 \<Longrightarrow>
   sint (x + y) = sint x + sint y"
  by (simp add: sint_word_add signed_take_bit_int_eq_self)

lemma abs_sdiv_le: "\<bar>(k::int) sdiv l\<bar> \<le> \<bar>k\<bar>"
proof -
  have "\<bar>k sdiv l\<bar> = \<bar>sgn k\<bar> * \<bar>sgn l\<bar> * (\<bar>k\<bar> div \<bar>l\<bar>)"
    by (simp add: signed_divide_int_def abs_mult div_int_pos_iff)
  also have "\<dots> \<le> \<bar>k\<bar> div \<bar>l\<bar>"
  proof -
    have "0 \<le> \<bar>k\<bar> div \<bar>l\<bar>"
      by (simp add: div_int_pos_iff)
    moreover have "\<bar>sgn k\<bar> * \<bar>sgn l\<bar> \<le> 1"
      by (cases "k = 0"; cases "l = 0") (simp_all add: abs_sgn_eq)
    ultimately show ?thesis
      using mult_right_mono by fastforce
  qed
  also have "\<dots> \<le> \<bar>k\<bar>"
  proof (cases "l = 0")
    case True
    then show ?thesis by simp
  next
    case False
    then have "1 \<le> \<bar>l\<bar>" by simp
    then have "\<bar>k\<bar> div \<bar>l\<bar> \<le> \<bar>k\<bar> div 1"
      by (intro zdiv_mono2) simp_all
    then show ?thesis by simp
  qed
  finally show ?thesis .
qed

lemma sdiv_less_top:
  fixes k l :: int
  assumes "- (2 ^ 31) \<le> k" and "k < 2 ^ 31" and "\<not> (k = - (2 ^ 31) \<and> l = - 1)"
  shows "k sdiv l < 2 ^ 31"
proof (cases "l = - 1")
  case True
  then have "k sdiv l = - k"
    by (simp add: signed_divide_int_def sgn_if)
  with assms True show ?thesis
    by simp
next
  case False
  show ?thesis
  proof (cases "0 \<le> k \<or> 0 \<le> l")
    case True
    then show ?thesis
    proof
      assume "0 \<le> k"
      with abs_sdiv_le [of k l] assms(2) show ?thesis
        by linarith
    next
      assume "0 \<le> l"
      show ?thesis
      proof (cases "0 \<le> k")
        case True
        with abs_sdiv_le [of k l] assms(2) show ?thesis
          by linarith
      next
        case False
        with \<open>0 \<le> l\<close> have "k sdiv l \<le> 0"
          by (simp add: signed_divide_int_def sgn_if div_int_pos_iff)
        then show ?thesis
          by simp
      qed
    qed
  next
    case neg: False
    with \<open>l \<noteq> - 1\<close> have l: "2 \<le> \<bar>l\<bar>" and k: "0 \<le> \<bar>k\<bar>"
      by simp_all
    have "\<bar>k\<bar> \<le> 2 ^ 31"
      using assms(1) neg by simp
    then have "\<bar>k\<bar> div 2 \<le> 2 ^ 31 div 2"
      by (intro zdiv_mono1) simp_all
    moreover have "\<bar>k\<bar> div \<bar>l\<bar> \<le> \<bar>k\<bar> div 2"
      using k l by (intro zdiv_mono2) simp_all
    moreover have "k sdiv l = \<bar>k\<bar> div \<bar>l\<bar>"
      using neg by (simp add: signed_divide_int_def sgn_if)
    ultimately show ?thesis
      by simp
  qed
qed

lemma FIXEDPOINT_IMPL_DIVIDE_sint:
  assumes "dividend \<noteq> 0"
    and "\<not> (dividend = - 1 \<and> divisor = - 2147483647)"
    and "- (2 ^ 31) \<le> sint divisor + sint dividend div 2"
    and "sint divisor + sint dividend div 2 < 2 ^ 31"
  shows "map_option sint (FIXEDPOINT_IMPL_DIVIDE dividend divisor) =
           Some ((sint divisor + sint dividend div 2) sdiv sint dividend)"
proof -
  let ?s = "sint divisor + sint dividend div 2"
  have s: "sint (divisor + signed_drop_bit 1 dividend) = ?s"
    using assms(3,4) sint_add_in_range [of divisor "signed_drop_bit 1 dividend"]
    by (simp only: sint_signed_drop_bit_1)
  have "\<not> (?s = - (2 ^ 31) \<and> sint dividend = - 1)"
  proof
    assume a: "?s = - (2 ^ 31) \<and> sint dividend = - 1"
    then have "sint dividend = sint (- 1 :: tValue)"
      by simp
    then have d: "dividend = - 1"
      by (rule signed_word_eqI)
    from a have "sint divisor + (- 1) div 2 = - (2 ^ 31)"
      by metis
    then have "sint divisor = sint (- 2147483647 :: tValue)"
      by simp
    then have "divisor = - 2147483647"
      by (rule signed_word_eqI)
    with d assms(2) show False
      by simp
  qed
  with assms(3,4) have hi: "?s sdiv sint dividend < 2 ^ 31"
    by (rule sdiv_less_top)
  have "\<bar>?s sdiv sint dividend\<bar> \<le> \<bar>?s\<bar>"
    by (rule abs_sdiv_le)
  with assms(3,4) have "- (2 ^ 31) \<le> ?s sdiv sint dividend"
    by linarith
  from this hi
  have "sint (word_of_int (?s sdiv sint dividend) :: tValue) = ?s sdiv sint dividend"
    by (rule sint_in_range)
  with s assms(1,2) show ?thesis
    by (simp add: FIXEDPOINT_IMPL_DIVIDE_eq)
qed

lemma FIXEDPOINT_IMPL_ROUND_eq:
  "1 \<le> n \<Longrightarrow> n < 32 \<Longrightarrow>
   FIXEDPOINT_IMPL_ROUND v n = Some (signed_drop_bit (nat n) (v + 2 ^ nat (n - 1)))"
  by (simp add: FIXEDPOINT_IMPL_ROUND_def int_shl_def int_shr_def)

lemma sint_push_bit_in_range:
  assumes "n < 32" and "- (2 ^ (31 - n)) \<le> sint (x :: tValue)" and "sint x < 2 ^ (31 - n)"
  shows "sint (push_bit n x) = sint x * 2 ^ n"
proof -
  have p: "(2::int) ^ (31 - n) * 2 ^ n = 2 ^ 31"
    using assms(1) by (simp flip: power_add)
  have "- (2 ^ (31 - n)) * 2 ^ n \<le> sint x * (2::int) ^ n"
    using assms(2) by (intro mult_right_mono) simp_all
  then have lo: "- (2 ^ 31) \<le> sint x * (2::int) ^ n"
    using p by simp
  have "sint x * (2::int) ^ n < 2 ^ (31 - n) * 2 ^ n"
    using assms(3) by (intro mult_strict_right_mono) simp_all
  then have hi: "sint x * (2::int) ^ n < 2 ^ 31"
    using p by simp
  have "sint (push_bit n x) = signed_take_bit 31 (push_bit n (sint x))"
    by (simp add: signed_push_bit_eq)
  also have "\<dots> = sint x * 2 ^ n"
    using lo hi by (simp add: push_bit_eq_mult signed_take_bit_int_eq_self)
  finally show ?thesis .
qed

lemma signed_drop_bit_push_bit:
  assumes "n < 32" and "- (2 ^ (31 - n)) \<le> sint (x :: tValue)" and "sint x < 2 ^ (31 - n)"
  shows "signed_drop_bit n (push_bit n x) = x"
proof (rule signed_word_eqI)
  show "sint (signed_drop_bit n (push_bit n x)) = sint x"
    using sint_push_bit_in_range [OF assms]
    by (simp add: sint_signed_drop_bit_eq drop_bit_eq_div)
qed

lemma int_div_bounds:
  assumes "0 < (c::int)" and "l * c \<le> a" and "a < u * c"
  shows "l \<le> a div c" and "a div c < u"
proof -
  have "(l * c) div c \<le> a div c"
    using assms(2,1) by (rule zdiv_mono1)
  then show "l \<le> a div c"
    using assms(1) by simp
  have "a div c * c = a - a mod c"
    by (simp add: minus_mod_eq_div_mult)
  moreover have "0 \<le> a mod c"
    using assms(1) by simp
  ultimately have "a div c * c < u * c"
    using assms(3) by linarith
  then show "a div c < u"
    using assms(1) by (simp add: mult_less_cancel_right)
qed

lemma sint_signed_drop_bit_bounds:
  assumes "n < 32"
  shows "- (2 ^ (31 - n)) \<le> sint (signed_drop_bit n (y :: tValue))"
    and "sint (signed_drop_bit n y) < 2 ^ (31 - n)"
proof -
  have p: "(2::int) ^ 31 = 2 ^ (31 - n) * 2 ^ n"
    using assms by (simp flip: power_add)
  have s: "sint (signed_drop_bit n y) = sint y div 2 ^ n"
    by (simp add: sint_signed_drop_bit_eq drop_bit_eq_div)
  have "- (2 ^ 31) \<le> sint y" "sint y < 2 ^ 31"
    using sint_ge [of y] sint_lt [of y] by simp_all
  then have b: "- (2 ^ (31 - n)) * 2 ^ n \<le> sint y" "sint y < 2 ^ (31 - n) * 2 ^ n"
    using p by simp_all
  show "- (2 ^ (31 - n)) \<le> sint (signed_drop_bit n y)"
    unfolding s using int_div_bounds(1) [OF _ b] by simp
  show "sint (signed_drop_bit n y) < 2 ^ (31 - n)"
    unfolding s using int_div_bounds(2) [OF _ b] by simp
qed

lemma sint_2p: "n < 31 \<Longrightarrow> sint ((2 :: tValue) ^ n) = 2 ^ n"
proof -
  assume n: "n < 31"
  have "(2 :: tValue) ^ n = word_of_int (2 ^ n)"
    by (simp add: word_of_int_2p)
  moreover have "(2::int) ^ n < 2 ^ 31"
    using n by (intro power_strict_increasing) simp_all
  moreover have "- (2 ^ 31) \<le> (2::int) ^ n"
    by (rule order_trans [of _ 0]) simp_all
  ultimately show ?thesis
    by (simp only: sint_in_range)
qed

lemma FIXEDPOINT_IMPL_ROUND_sint:
  assumes "1 \<le> n" and "n < 32" and "sint v + 2 ^ nat (n - 1) < 2 ^ 31"
  shows "map_option sint (FIXEDPOINT_IMPL_ROUND v n) =
           Some ((sint v + 2 ^ nat (n - 1)) div 2 ^ nat n)"
proof -
  have h: "sint ((2 :: tValue) ^ nat (n - 1)) = 2 ^ nat (n - 1)"
    using assms(1,2) by (intro sint_2p) simp
  have "- (2 ^ 31) \<le> sint v"
    using sint_ge [of v] by simp
  then have "- (2 ^ 31) \<le> sint v + sint ((2 :: tValue) ^ nat (n - 1))"
    unfolding h by (rule order_trans) simp
  moreover have "sint v + sint ((2 :: tValue) ^ nat (n - 1)) < 2 ^ 31"
    unfolding h by (rule assms(3))
  ultimately have "sint (v + 2 ^ nat (n - 1)) = sint v + 2 ^ nat (n - 1)"
    using h by (simp only: sint_add_in_range)
  then show ?thesis
    using assms(1,2)
    by (simp add: FIXEDPOINT_IMPL_ROUND_eq sint_signed_drop_bit_eq drop_bit_eq_div)
qed

lemma half_way_up:
  fixes x :: int
  assumes "1 \<le> d" and "x mod 2 ^ d = 2 ^ (d - 1)"
  shows "(x + 2 ^ (d - 1)) div 2 ^ d = x div 2 ^ d + 1"
    and "\<lceil>real_of_int x / 2 ^ d\<rceil> = x div 2 ^ d + 1"
    and "(x div 2 ^ d + 1) * 2 ^ d = x + 2 ^ (d - 1)"
proof -
  have D: "(2::int) ^ d = 2 * 2 ^ (d - 1)"
    using assms(1) by (cases d) simp_all
  have x: "x = x div 2 ^ d * 2 ^ d + 2 ^ (d - 1)"
    using div_mult_mod_eq [of x "2 ^ d"] assms(2) by simp
  then have "x + 2 ^ (d - 1) = (x div 2 ^ d + 1) * 2 ^ d"
    using D by (simp add: algebra_simps)
  then show up: "(x div 2 ^ d + 1) * 2 ^ d = x + 2 ^ (d - 1)"
    by simp
  then have "(x + 2 ^ (d - 1)) div 2 ^ d = ((x div 2 ^ d + 1) * 2 ^ d) div 2 ^ d"
    by simp
  then show "(x + 2 ^ (d - 1)) div 2 ^ d = x div 2 ^ d + 1"
    by simp
  have pos: "(0::int) < 2 ^ (d - 1)"
    by simp
  have lo: "x div 2 ^ d * 2 ^ d < x"
    using x pos by linarith
  have hi: "x \<le> (x div 2 ^ d + 1) * 2 ^ d"
    using up pos by linarith
  have "real_of_int (x div 2 ^ d * 2 ^ d) < real_of_int x"
    using lo by (simp only: of_int_less_iff)
  then have lo': "real_of_int (x div 2 ^ d + 1) - 1 < real_of_int x / 2 ^ d"
    by (simp add: pos_less_divide_eq)
  have "real_of_int x \<le> real_of_int ((x div 2 ^ d + 1) * 2 ^ d)"
    using hi by (simp only: of_int_le_iff)
  then have hi': "real_of_int x / 2 ^ d \<le> real_of_int (x div 2 ^ d + 1)"
    by (simp add: pos_divide_le_eq)
  from lo' hi' show "\<lceil>real_of_int x / 2 ^ d\<rceil> = x div 2 ^ d + 1"
    by (rule ceiling_unique)
qed

lemma word_of_int_sint: "word_of_int (sint w) = (w :: tValue)"
  by simp

lemma and_mask_sint: "(w :: tValue) AND mask n = word_of_int (sint w mod 2 ^ n)"
  using and_mask_wi [of "sint w" n, where ?'a = 32]
  by (simp add: take_bit_eq_mod)

lemma neg_and_mask_sint: "(- (w :: tValue)) AND mask n = word_of_int ((- sint w) mod 2 ^ n)"
  using and_mask_wi [of "- sint w" n, where ?'a = 32]
  by (simp add: take_bit_eq_mod)

lemma intPart_times: "signed_drop_bit n (w :: tValue) * 2 ^ n = word_of_int (sint w div 2 ^ n * 2 ^ n)"
proof -
  have "signed_drop_bit n w = word_of_int (sint (signed_drop_bit n w))"
    by simp
  also have "\<dots> = word_of_int (sint w div 2 ^ n)"
    by (simp only: sint_signed_drop_bit_eq drop_bit_eq_div)
  finally show ?thesis
    by (simp add: word_of_int_2p wi_hom_syms del: of_int_sint)
qed

lemma sint_small:
  assumes "n < 32" and "- (2 ^ n) < k" and "k < 2 ^ n"
  shows "sint (word_of_int k :: tValue) = k"
proof -
  have "(2::int) ^ n \<le> 2 ^ 31"
    using assms(1) by (intro power_increasing) simp_all
  with assms(2,3) show ?thesis
    by (intro sint_in_range) linarith+
qed


lemma decomposition_word:
  fixes w :: tValue
  assumes "n < 32"
  defines "f \<equiv> (if 0 \<le>s w then w AND mask n else - ((- w) AND mask n))"
  shows "signed_drop_bit n w * 2 ^ n + f =
           (if 0 \<le>s w \<or> take_bit n w = 0 then w else w - 2 ^ n)"
    and "sint f = sint w smod 2 ^ n"
proof -
  let ?W = "sint w" and ?M = "(2::int) ^ n"
  have M: "0 < ?M" by simp
  have split: "?W div ?M * ?M + ?W mod ?M = ?W"
    by (rule div_mult_mod_eq)
  have low: "take_bit n w = 0 \<longleftrightarrow> ?W mod ?M = 0"
  proof -
    have t: "take_bit n w = word_of_int (?W mod ?M)"
      by (simp only: take_bit_eq_mask and_mask_sint)
    have s: "sint (word_of_int (?W mod ?M) :: tValue) = ?W mod ?M"
      using assms(1) M by (intro sint_small) (auto intro: less_le_trans [of _ 0])
    show ?thesis
    proof
      assume "take_bit n w = 0"
      then have "sint (word_of_int (?W mod ?M) :: tValue) = sint (0 :: tValue)"
        by (simp only: t)
      then show "?W mod ?M = 0"
        by (simp only: s sint_0)
    next
      assume "?W mod ?M = 0"
      then show "take_bit n w = 0"
        by (simp only: t word_of_int_0)
    qed
  qed
  show "signed_drop_bit n w * 2 ^ n + f =
      (if 0 \<le>s w \<or> take_bit n w = 0 then w else w - 2 ^ n)"
  proof (cases "0 \<le>s w")
    case True
    then have "signed_drop_bit n w * 2 ^ n + f = word_of_int (?W div ?M * ?M + ?W mod ?M)"
      by (simp only: f_def intPart_times and_mask_sint wi_hom_add if_True)
    then show ?thesis
      using True by (simp only: split word_of_int_sint) simp
  next
    case False
    then have "signed_drop_bit n w * 2 ^ n + f =
        word_of_int (?W div ?M * ?M) - word_of_int ((- ?W) mod ?M)"
      by (simp only: f_def intPart_times neg_and_mask_sint if_False) simp
    also have "\<dots> = word_of_int (?W div ?M * ?M - (- ?W) mod ?M)"
      by (simp only: wi_hom_sub)
    finally have sum: "signed_drop_bit n w * 2 ^ n + f =
        word_of_int (?W div ?M * ?M - (- ?W) mod ?M)" .
    show ?thesis
    proof (cases "?W mod ?M = 0")
      case True
      then have "?W div ?M * ?M - (- ?W) mod ?M = ?W"
        using split by (simp add: zmod_zminus1_eq_if)
      then show ?thesis
        using sum True low by (simp only: word_of_int_sint) simp
    next
      case nz: False
      then have "?W div ?M * ?M - (- ?W) mod ?M = ?W - ?M"
        using split by (simp add: zmod_zminus1_eq_if)
      then have "signed_drop_bit n w * 2 ^ n + f = w - 2 ^ n"
        using sum by (simp only: wi_hom_syms word_of_int_sint word_of_int_2p)
      then show ?thesis
        using False nz low by simp
    qed
  qed
  show "sint f = sint w smod 2 ^ n"
  proof (cases "0 \<le>s w")
    case True
    then have W: "0 \<le> ?W"
      by (simp add: word_sle_eq)
    have "sint f = sint (word_of_int (?W mod ?M) :: tValue)"
      using True by (simp only: f_def and_mask_sint if_True)
    also have "\<dots> = ?W mod ?M"
      using assms(1) M by (intro sint_small) (auto intro: less_le_trans [of _ 0])
    also have "\<dots> = ?W smod ?M"
      using W by (simp add: signed_modulo_int_def sgn_if)
    finally show ?thesis .
  next
    case False
    then have W: "?W < 0"
      by (simp add: word_sle_eq)
    have "sint f = sint (word_of_int (- ((- ?W) mod ?M)) :: tValue)"
      using False by (simp only: f_def neg_and_mask_sint if_False wi_hom_neg)
    also have "\<dots> = - ((- ?W) mod ?M)"
      using assms(1) M by (intro sint_small) (auto intro: le_less_trans [of _ 0])
    also have "\<dots> = ?W smod ?M"
      using W by (simp add: signed_modulo_int_def sgn_if)
    finally show ?thesis .
  qed
qed

lemma next_mask:
  assumes "m < 31"
  shows "signed_drop_bit 1 ((2 :: tValue) ^ m) = (if m = 0 then 0 else 2 ^ (m - 1))"
proof (rule signed_word_eqI)
  have "sint (signed_drop_bit 1 ((2 :: tValue) ^ m)) = 2 ^ m div 2"
    using assms by (simp only: sint_signed_drop_bit_1 sint_2p)
  also have "\<dots> = sint (if m = 0 then 0 else (2 :: tValue) ^ (m - 1))"
    using assms by (cases m) (simp_all add: sint_2p)
  finally show "sint (signed_drop_bit 1 ((2 :: tValue) ^ m)) =
      sint (if m = 0 then 0 else (2 :: tValue) ^ (m - 1))" .
qed

lemma take_bit_Suc_word:
  "take_bit (Suc m) (x :: tValue) = 2 ^ m * of_bool (bit x m) + take_bit m x"
proof -
  have "uint (take_bit (Suc m) x) = 2 ^ m * of_bool (bit x m) + uint (take_bit m x)"
    by (auto simp add: take_bit_Suc_from_most bit_uint_iff unsigned_take_bit_eq
        dest: bit_imp_le_length)
  then have "word_of_int (uint (take_bit (Suc m) x)) =
      (word_of_int (2 ^ m * of_bool (bit x m) + uint (take_bit m x)) :: tValue)"
    by (rule arg_cong)
  then show ?thesis
    by (simp add: wi_hom_syms word_of_int_2p del: of_int_add of_int_mult)
qed

lemma clear_top_bit:
  fixes x :: tValue
  assumes "take_bit (Suc m) x = x"
  shows "x AND 2 ^ m \<noteq> 0 \<Longrightarrow> take_bit m (x - 2 ^ m) = x - 2 ^ m"
    and "x AND 2 ^ m = 0 \<Longrightarrow> take_bit m x = x"
proof -
  note e = take_bit_Suc_word [of m x]
  {
    assume "x AND 2 ^ m \<noteq> 0"
    then have "bit x m"
      by (simp add: and_exp_eq_0_iff_not_bit)
    with e have "take_bit (Suc m) x - 2 ^ m = take_bit m x"
      by simp
    then have "x - 2 ^ m = take_bit m x"
      by (simp only: assms)
    then show "take_bit m (x - 2 ^ m) = x - 2 ^ m"
      by simp
  }
  {
    assume "x AND 2 ^ m = 0"
    then have "\<not> bit x m"
      by (simp add: and_exp_eq_0_iff_not_bit)
    with e have "take_bit (Suc m) x = take_bit m x"
      by simp
    then show "take_bit m x = x"
      by (simp only: assms)
  }
qed

lemma loop_done: "fracPlaces_loop passes 0 result dec_qx m = Some (result, passes)"
  by (subst fracPlaces_loop.simps) simp

lemma loop_set:
  "x \<noteq> 0 \<Longrightarrow> x AND m \<noteq> 0 \<Longrightarrow>
   fracPlaces_loop passes x result dec_qx m =
     fracPlaces_loop (Suc passes) (x - m) (result + dec_qx) (drop_bit 1 dec_qx) (signed_drop_bit 1 m)"
  by (subst fracPlaces_loop.simps) simp

lemma loop_clear:
  "x \<noteq> 0 \<Longrightarrow> x AND m = 0 \<Longrightarrow>
   fracPlaces_loop passes x result dec_qx m =
     fracPlaces_loop (Suc passes) x result (drop_bit 1 dec_qx) (signed_drop_bit 1 m)"
  by (subst fracPlaces_loop.simps) simp

lemma fracPlaces_loop_terminates:
  "m \<le> 31 \<Longrightarrow> take_bit m x = x \<Longrightarrow>
   \<exists>r k. fracPlaces_loop passes x result dec_qx (if m = 0 then 0 else 2 ^ (m - 1)) = Some (r, k) \<and>
         k \<le> passes + m"
proof (induction m arbitrary: passes x result dec_qx)
  case 0
  then have "x = 0"
    by simp
  then show ?case
    by (simp only: loop_done) simp
next
  case (Suc m)
  have m: "m \<le> 31" "m < 31"
    using Suc.prems(1) by simp_all
  have nm: "signed_drop_bit 1 ((2 :: tValue) ^ m) = (if m = 0 then 0 else 2 ^ (m - 1))"
    using m(2) by (rule next_mask)
  have goal: "\<exists>r k. fracPlaces_loop passes x result dec_qx
      (if Suc m = 0 then 0 else 2 ^ (Suc m - 1)) = Some (r, k) \<and> k \<le> passes + Suc m"
    if "fracPlaces_loop passes x result dec_qx (2 ^ m) = Some (r, k)" and "k \<le> Suc passes + m"
    for r k
    using that by auto
  show ?case
  proof (cases "x = 0")
    case True
    then show ?thesis
      by (simp only: loop_done) simp
  next
    case nz: False
    show ?thesis
    proof (cases "x AND 2 ^ m = 0")
      case True
      have "take_bit m x = x"
        using Suc.prems(2) True by (rule clear_top_bit(2))
      from Suc.IH [OF m(1) this, of "Suc passes" result "drop_bit 1 dec_qx"]
      obtain r k where run: "fracPlaces_loop (Suc passes) x result (drop_bit 1 dec_qx)
          (if m = 0 then 0 else 2 ^ (m - 1)) = Some (r, k)" and k: "k \<le> Suc passes + m"
        by (elim exE conjE) (rule that)
      have "fracPlaces_loop passes x result dec_qx (2 ^ m) = Some (r, k)"
        using run by (simp only: loop_clear [OF nz True] nm)
      then show ?thesis
        using k by (rule goal)
    next
      case False
      have "take_bit m (x - 2 ^ m) = x - 2 ^ m"
        using Suc.prems(2) False by (rule clear_top_bit(1))
      from Suc.IH [OF m(1) this, of "Suc passes" "result + dec_qx" "drop_bit 1 dec_qx"]
      obtain r k where run: "fracPlaces_loop (Suc passes) (x - 2 ^ m) (result + dec_qx)
          (drop_bit 1 dec_qx) (if m = 0 then 0 else 2 ^ (m - 1)) = Some (r, k)"
        and k: "k \<le> Suc passes + m"
        by (elim exE conjE) (rule that)
      have "fracPlaces_loop passes x result dec_qx (2 ^ m) = Some (r, k)"
        using run by (simp only: loop_set [OF nz False] nm)
      then show ?thesis
        using k by (rule goal)
    qed
  qed
qed

lemma scale_decimals_eq: "scale_decimals n x = x * 10 ^ n"
  by (induction n arbitrary: x) (simp_all add: mult.assoc)

lemma foldl_decimal:
  "foldl (\<lambda>a d. 10 * a + int d) acc ds = acc * 10 ^ length ds + foldl (\<lambda>a d. 10 * a + int d) 0 ds"
proof (induction ds arbitrary: acc)
  case Nil
  show ?case by simp
next
  case (Cons d ds)
  let ?f = "\<lambda>a d. 10 * a + int d"
  have "foldl ?f acc (d # ds) = (10 * acc + int d) * 10 ^ length ds + foldl ?f 0 ds"
    using Cons.IH [of "10 * acc + int d"] by simp
  moreover have "foldl ?f 0 (d # ds) = int d * 10 ^ length ds + foldl ?f 0 ds"
    using Cons.IH [of "int d"] by simp
  ultimately show ?case
    by (simp only: length_Cons power_Suc) (simp only: algebra_simps)
qed

lemma decimal_value_Cons:
  "decimal_value (c # ds) = int c * 10 ^ length ds + decimal_value ds"
  using foldl_decimal [of "int c" ds] by (simp add: decimal_value_def)

lemma decimal_value_nonneg: "0 \<le> decimal_value ds"
proof -
  have "0 \<le> acc \<Longrightarrow> 0 \<le> foldl (\<lambda>a d. 10 * a + int d) acc ds" for acc
    by (induction ds arbitrary: acc) simp_all
  then show ?thesis
    by (simp add: decimal_value_def)
qed

lemma round_half_up:
  fixes N D :: int
  assumes "0 < D" and "even D"
  shows "(N + D div 2) div D = \<lfloor>real_of_int N / real_of_int D + 1 / 2\<rfloor>"
proof -
  have "real_of_int (D div 2) = real_of_int D / 2"
    using assms(2) by (simp add: real_of_int_div)
  then have "real_of_int N / real_of_int D + 1 / 2 = real_of_int (N + D div 2) / real_of_int D"
    using assms(1) by (simp add: field_simps)
  then show ?thesis
    by (simp only: floor_divide_of_int_eq)
qed

lemmas fits_simps = signed_take_bit_int_eq_self_iff take_bit_int_eq_self_iff

lemma convert_mono:
  "0 \<le> k \<Longrightarrow> convert t k = k \<Longrightarrow> conversion_rank t \<le> conversion_rank u \<Longrightarrow> convert u k = k"
  by (cases t; cases u) (simp_all add: fits_simps)

lemma convert_le:
  "0 \<le> j \<Longrightarrow> j \<le> k \<Longrightarrow> convert t k = k \<Longrightarrow> convert t j = j"
  by (cases t) (simp_all add: fits_simps)

lemma convert_small: "0 \<le> k \<Longrightarrow> k < 2 ^ 31 \<Longrightarrow> convert t k = k"
  by (cases t) (simp_all add: fits_simps)

lemma common_type_left:
  "conversion_rank u \<le> conversion_rank t \<Longrightarrow> common_type t u = t"
  by (cases t; cases u) (simp_all add: common_type_def)

lemma common_type_right:
  "conversion_rank t \<le> conversion_rank u \<Longrightarrow> common_type t u = u"
  by (simp add: common_type_def)

lemma c_div_nonneg:
  assumes "0 \<le> a" and "0 < b" and "convert t a = a" and "convert u b = b"
    and "conversion_rank u \<le> conversion_rank t"
  shows "c_div (t, a) (u, b) = Some (t, a div b)"
proof -
  have t: "common_type t u = t"
    using assms(5) by (rule common_type_left)
  have b: "convert t b = b"
    using assms(2,4,5) by (intro convert_mono [of b u t]) simp_all
  have d: "a sdiv b = a div b"
    using assms(1,2) by (simp add: signed_divide_int_def sgn_if)
  have "0 \<le> a div b"
    using assms(1,2) by (simp add: pos_imp_zdiv_nonneg_iff)
  moreover have "a div b \<le> a div 1"
    using assms(1,2) by (intro zdiv_mono2) simp_all
  then have "a div b \<le> a"
    by simp
  ultimately have "convert t (a div b) = a div b"
    using assms(3) by (rule convert_le)
  then show ?thesis
    using assms(2) by (simp add: c_div_def t assms(3) b d)
qed

lemma octal_value_nonneg: "0 \<le> octal_value ds"
proof -
  have "0 \<le> acc \<Longrightarrow> 0 \<le> foldl (\<lambda>a d. 8 * a + int d) acc ds" for acc
    by (induction ds arbitrary: acc) simp_all
  then show ?thesis
    by (simp add: octal_value_def)
qed

lemma decimal_literal_fits:
  "0 \<le> v \<Longrightarrow> decimal_literal v = Some (t, w) \<Longrightarrow> w = v \<and> convert t v = v"
  by (auto simp add: decimal_literal_def fits_simps split: if_splits)

lemma octal_literal_fits:
  "0 \<le> v \<Longrightarrow> octal_literal v = Some (t, w) \<Longrightarrow> w = v \<and> convert t v = v"
  by (auto simp add: octal_literal_def fits_simps split: if_splits)

lemma literal_fits:
  assumes "integer_literal ds = Some (t, v)"
  shows "0 \<le> v" and "convert t v = v" and "list_all (\<lambda>d. d < 10) ds" and "ds \<noteq> []"
proof -
  from assms show "list_all (\<lambda>d. d < 10) ds" and "ds \<noteq> []"
    by (auto simp add: integer_literal_def split: if_splits)
  from assms consider "octal_literal (octal_value ds) = Some (t, v)"
    | "decimal_literal (decimal_value ds) = Some (t, v)"
    by (auto simp add: integer_literal_def split: if_splits)
  then show "0 \<le> v" and "convert t v = v"
    using octal_literal_fits [OF octal_value_nonneg, of ds t v]
      decimal_literal_fits [OF decimal_value_nonneg, of ds t v]
      octal_value_nonneg [of ds] decimal_value_nonneg [of ds]
    by auto
qed

lemma literal_pasted:
  assumes "list_all (\<lambda>d. d < 10) ds" and "0 < c" and "c < 10"
  shows "integer_literal (c # ds) = decimal_literal (int c * 10 ^ length ds + decimal_value ds)"
  using assms by (simp add: integer_literal_def decimal_value_Cons)

lemma decimal_literal_below:
  assumes "0 \<le> v" and "v \<le> w" and "decimal_literal w = Some (u, w)"
  shows "\<exists>t. decimal_literal v = Some (t, v) \<and> conversion_rank t \<le> conversion_rank u"
  using assms by (auto simp add: decimal_literal_def split: if_splits)

lemma literal_rank_below:
  assumes "integer_literal ds = Some (t, v)" and "v \<le> w" and "decimal_literal w = Some (u, w)"
  shows "conversion_rank t \<le> conversion_rank u"
  using assms
  by (auto simp add: integer_literal_def decimal_literal_def octal_literal_def split: if_splits)


lemma sint_one_shifted: "n < 31 \<Longrightarrow> sint ((2 :: tValue) ^ n) = 2 ^ n"
  by (simp add: sint_2p)

lemmas constant_eval =
  FIXEDPOINT_CONSTANT_def integer_literal_def decimal_literal_def octal_literal_def
  decimal_value_def octal_value_def c_add_def c_sub_def c_mul_def c_div_def common_type_def
  tFixedPoint_parts_def int_shl_def word_sle_eq

lemma sint_push_bit_product:
  assumes "- (2 ^ 31) \<le> sint (n :: tValue) * 2 ^ k" and "sint n * 2 ^ k < 2 ^ 31"
  shows "sint (push_bit k n) = sint n * 2 ^ k"
proof -
  have "sint (push_bit k n) = signed_take_bit 31 (push_bit k (sint n))"
    by (simp add: signed_push_bit_eq)
  also have "\<dots> = sint n * 2 ^ k"
    using assms by (simp add: push_bit_eq_mult signed_take_bit_int_eq_self)
  finally show ?thesis .
qed

lemma tFixedPoint_int_Some:
  "0 \<le> Q \<Longrightarrow> Q < 32 \<Longrightarrow>
   tFixedPoint_int Q n = Some \<lparr>cQBits = Q, qValue = push_bit (nat Q) n\<rparr>"
  by (simp add: tFixedPoint_int_def int_shl_def)

lemma tValue_of_double_half:
  assumes "0 \<le> k" and "k < 2 ^ 31"
  shows "tValue_of_double (real_of_int k + 0.5) = Some (word_of_int k)"
proof -
  have "\<lfloor>real_of_int k + 0.5\<rfloor> = k"
    by (simp add: floor_unique)
  moreover have "0 \<le> real_of_int k + 0.5"
    using assms(1) by simp
  ultimately show ?thesis
    using assms by (simp add: tValue_of_double_def)
qed

lemma rounded'_of_scalar:
  assumes "0 \<le> Q" and "Q < 32" and "0 \<le> sint n" and "sint n * 2 ^ nat Q < 2 ^ 31"
  shows "rounded' Q (double_of_tValue n) = Some (push_bit (nat Q) n)"
proof -
  have one: "int_shl 1 Q = Some (2 ^ nat Q)"
    using assms(1,2) by (simp add: int_shl_def push_bit_eq_mult)
  have run: "rounded' Q (double_of_tValue n) =
      tValue_of_double (double_of_tValue n * double_of_tValue (2 ^ nat Q) + 0.5)"
    by (simp only: rounded'_def one Option.bind.bind_lunit)
  have arg: "double_of_tValue n * double_of_tValue (2 ^ nat Q) =
      real_of_int (sint n * 2 ^ nat Q)"
  proof (cases "sint n = 0")
    case True
    then show ?thesis
      by (simp only: double_of_tValue_def of_int_0 mult_zero_left)
  next
    case False
    with assms(3) have "1 \<le> sint n"
      by simp
    then have "1 * (2::int) ^ nat Q \<le> sint n * 2 ^ nat Q"
      by (intro mult_right_mono) simp_all
    with assms(4) have "(2::int) ^ nat Q < 2 ^ 31"
      by linarith
    then have "nat Q < 31"
      using power_less_imp_less_exp [of "2::int" "nat Q" 31] by simp
    then have "sint ((2 :: tValue) ^ nat Q) = 2 ^ nat Q"
      by (rule sint_2p)
    then show ?thesis
      by (simp only: double_of_tValue_def of_int_mult)
  qed
  have "0 \<le> sint n * 2 ^ nat Q"
    using assms(3) by simp
  then have "tValue_of_double (real_of_int (sint n * 2 ^ nat Q) + 0.5) =
      Some (word_of_int (sint n * 2 ^ nat Q))"
    using assms(4) by (rule tValue_of_double_half)
  moreover have "(word_of_int (sint n * 2 ^ nat Q) :: tValue) = push_bit (nat Q) n"
    by (simp add: push_bit_eq_mult wi_hom_syms word_of_int_2p del: of_int_mult)
  ultimately show ?thesis
    by (simp only: run arg)
qed


lemma sle_not_sless_iff: "(a \<le>s b) \<noteq> (a <s b) \<longleftrightarrow> b = (a :: tValue)"
  by (auto simp add: word_sle_eq word_sless_alt intro: signed_word_eqI [symmetric])

section \<open>Division of two values of the same type\<close>

text \<open>
  A raw value of \<open>a\<close> other than zero does not suffice for \<^verbatim>\<open>a / b\<close> to have a result. With
  \<open>a\<close> of raw value \<open>-1\<close> and \<open>b\<close> of raw value \<open>- 2147483647\<close> the sum \<^verbatim>\<open>B + (A >> 1)\<close> is the most
  negative \<^verbatim>\<open>int\<close>, and its division by \<open>-1\<close> has no quotient in \<^verbatim>\<open>int\<close>.
\<close>

theorem operator_div_same_type_counterexample:
  "qValue \<lparr>cQBits = 8, qValue = - 1\<rparr> \<noteq> 0 \<and>
   - 2147483647 + signed_drop_bit 1 (- 1) = (- 2147483648 :: tValue) \<and>
   operator_div \<lparr>cQBits = 8, qValue = - 1\<rparr> \<lparr>cQBits = 8, qValue = - 2147483647\<rparr> = None"
proof -
  have "signed_drop_bit 1 (- 1 :: tValue) = - 1"
    by (rule signed_word_eqI) (simp add: sint_signed_drop_bit_eq)
  then show ?thesis
    by (simp add: operator_div_def FIXEDPOINT_IMPL_DIVIDE_def int_shr_def int_div_def)
qed

text \<open>
  C1, amended. For two values \<open>a\<close> and \<open>b\<close> of the same type, with raw values \<open>A\<close> and \<open>B\<close>,
  \<^verbatim>\<open>a / b\<close> has a result unless \<open>A\<close> is zero, or \<open>A\<close> is \<open>-1\<close> and \<open>B\<close> is \<open>- 2147483647\<close>. The result
  is a plain \<^verbatim>\<open>tValue\<close>, not a fixed-point value, and it is \<^verbatim>\<open>(B + (A >> 1)) / A\<close> in 32-bit
  arithmetic: the sum wraps, the shift is arithmetic and the quotient truncates towards
  zero. Where the sum does not leave the range of \<^verbatim>\<open>int\<close>, that is the integer
  \<open>(B + \<lfloor>A / 2\<rfloor>) sdiv A\<close>.
\<close>

theorem operator_div_same_type:
  "operator_div a b =
     (if qValue a = 0 \<or> (qValue a = - 1 \<and> qValue b = - 2147483647) then None
      else Some (word_of_int
                   (sint (qValue b + signed_drop_bit 1 (qValue a)) sdiv sint (qValue a)))) \<and>
   (qValue a \<noteq> 0 \<and> \<not> (qValue a = - 1 \<and> qValue b = - 2147483647) \<and>
    - (2 ^ 31) \<le> sint (qValue b) + sint (qValue a) div 2 \<and>
    sint (qValue b) + sint (qValue a) div 2 < 2 ^ 31 \<longrightarrow>
      map_option sint (operator_div a b) =
        Some ((sint (qValue b) + sint (qValue a) div 2) sdiv sint (qValue a)))"
proof (intro conjI impI)
  show "operator_div a b =
      (if qValue a = 0 \<or> (qValue a = - 1 \<and> qValue b = - 2147483647) then None
       else Some (word_of_int
                    (sint (qValue b + signed_drop_bit 1 (qValue a)) sdiv sint (qValue a))))"
    by (simp only: operator_div_def FIXEDPOINT_IMPL_DIVIDE_eq)
next
  assume "qValue a \<noteq> 0 \<and> \<not> (qValue a = - 1 \<and> qValue b = - 2147483647) \<and>
    - (2 ^ 31) \<le> sint (qValue b) + sint (qValue a) div 2 \<and>
    sint (qValue b) + sint (qValue a) div 2 < 2 ^ 31"
  then have "map_option sint (FIXEDPOINT_IMPL_DIVIDE (qValue a) (qValue b)) =
      Some ((sint (qValue b) + sint (qValue a) div 2) sdiv sint (qValue a))"
    by (intro FIXEDPOINT_IMPL_DIVIDE_sint) simp_all
  then show "map_option sint (operator_div a b) =
      Some ((sint (qValue b) + sint (qValue a) div 2) sdiv sint (qValue a))"
    by (simp only: operator_div_def)
qed

theorem operator_div_same_type_witness:
  "qValue \<lparr>cQBits = 8, qValue = 16\<rparr> \<noteq> 0 \<and>
   \<not> (qValue \<lparr>cQBits = 8, qValue = 16\<rparr> = - 1 \<and>
      qValue \<lparr>cQBits = 8, qValue = 60\<rparr> = - 2147483647) \<and>
   - (2 ^ 31) \<le> sint (60 :: tValue) + sint (16 :: tValue) div 2 \<and>
   sint (60 :: tValue) + sint (16 :: tValue) div 2 < 2 ^ 31 \<and>
   operator_div \<lparr>cQBits = 8, qValue = 16\<rparr> \<lparr>cQBits = 8, qValue = 60\<rparr> = Some 4 \<and>
   (sint (60 :: tValue) + sint (16 :: tValue) div 2) sdiv sint (16 :: tValue) = 4 \<and>
   sint (60 :: tValue) sdiv sint (16 :: tValue) = 3"
  using operator_div_same_type [of "\<lparr>cQBits = 8, qValue = 16\<rparr>" "\<lparr>cQBits = 8, qValue = 60\<rparr>"]
  by (simp add: signed_divide_int_def)

section \<open>Multiplication of two values of the same type\<close>

text \<open>
  The binary \<^verbatim>\<open>a * b\<close> on two values of the same type does not round: one times one at
  4 fractional bits is the raw product 256 at 8 fractional bits, where rounding back to
  4 bits would give raw 16.
\<close>

theorem operator_mul_same_type_counterexample:
  "operator_mul \<lparr>cQBits = 4, qValue = 16\<rparr> \<lparr>cQBits = 4, qValue = 16\<rparr> =
     Some \<lparr>cQBits = 8, qValue = 256\<rparr> \<and>
   (FIXEDPOINT_IMPL_ROUND (16 * 16) 4 \<bind> create 4) = Some \<lparr>cQBits = 4, qValue = 16\<rparr> \<and>
   operator_mul \<lparr>cQBits = 4, qValue = 16\<rparr> \<lparr>cQBits = 4, qValue = 16\<rparr> \<noteq>
     (FIXEDPOINT_IMPL_ROUND (16 * 16) 4 \<bind> create 4)"
  by (simp add: operator_mul_def create_eq FIXEDPOINT_IMPL_ROUND_def int_shl_def int_shr_def)

text \<open>
  C2, amended. For two values of the same type with \<open>p\<close> fractional bits, \<open>1 \<le> p < 32\<close>:
  \<^verbatim>\<open>a *= b\<close> keeps \<open>p\<close> fractional bits and sets the raw value to
  \<^verbatim>\<open>((rawA * rawB) + 2^(p-1)) >> p\<close>, the product wrapping in 32 bits; the binary \<^verbatim>\<open>a * b\<close>
  yields \<open>p + p\<close> fractional bits and the raw product itself, not rounded.
\<close>

theorem operator_mul_same_type:
  assumes "1 \<le> cQBits a" and "cQBits a < 32"
  shows "operator_mul_assign a b =
           Some \<lparr>cQBits = cQBits a,
                 qValue = signed_drop_bit (nat (cQBits a))
                            (qValue a * qValue b + 2 ^ nat (cQBits a - 1))\<rparr> \<and>
         operator_mul a b = Some \<lparr>cQBits = cQBits a + cQBits a, qValue = qValue a * qValue b\<rparr>"
  using assms
  by (simp add: operator_mul_assign_def roundedBy'_def FIXEDPOINT_IMPL_ROUND_eq
      operator_mul_def create_eq)

theorem operator_mul_same_type_witness:
  "1 \<le> cQBits \<lparr>cQBits = 4, qValue = 24\<rparr> \<and> cQBits \<lparr>cQBits = 4, qValue = 24\<rparr> < 32 \<and>
   operator_mul_assign \<lparr>cQBits = 4, qValue = 24\<rparr> \<lparr>cQBits = 4, qValue = 21\<rparr> =
     Some \<lparr>cQBits = 4, qValue = 32\<rparr> \<and>
   operator_mul \<lparr>cQBits = 4, qValue = 24\<rparr> \<lparr>cQBits = 4, qValue = 21\<rparr> =
     Some \<lparr>cQBits = 8, qValue = 504\<rparr>"
  using operator_mul_same_type [of "\<lparr>cQBits = 4, qValue = 24\<rparr>" "\<lparr>cQBits = 4, qValue = 21\<rparr>"]
  by simp

section \<open>Division of two values of different types\<close>

text \<open>
  The binary \<^verbatim>\<open>a / b\<close> does not shift its left operand first, and \<^verbatim>\<open>a /= b\<close> keeps the
  type of \<open>a\<close>. At \<open>a\<close> of raw value 16 with 8 fractional bits and \<open>b\<close> of raw value 64 with
  4, the binary operator returns raw 4 where the rule on the shifted operand gives 0, and
  the compound operator returns a value of 8 fractional bits, not 4.
\<close>

theorem operator_div_cross_type_counterexample:
  "operator_div_x \<lparr>cQBits = 8, qValue = 16\<rparr> \<lparr>cQBits = 4, qValue = 64\<rparr> =
     Some \<lparr>cQBits = 4, qValue = 4\<rparr> \<and>
   (int_shl 16 (8 - 4) \<bind> (\<lambda>s. FIXEDPOINT_IMPL_DIVIDE s 64) \<bind> create (8 - 4)) =
     Some \<lparr>cQBits = 4, qValue = 0\<rparr> \<and>
   operator_div_assign_x \<lparr>cQBits = 8, qValue = 16\<rparr> \<lparr>cQBits = 4, qValue = 64\<rparr> =
     Some \<lparr>cQBits = 8, qValue = 0\<rparr>"
  by (simp add: operator_div_x_def operator_div_assign_x_def create_eq
      FIXEDPOINT_IMPL_DIVIDE_def int_shl_def int_shr_def int_div_def signed_divide_int_def)

text \<open>
  C3, amended. Let \<open>a\<close> have \<open>p\<close> fractional bits and raw value \<open>A\<close>, and \<open>b\<close>, of another type,
  \<open>q\<close> fractional bits and raw value \<open>B\<close>.
  \<^item> The binary \<^verbatim>\<open>a / b\<close> has a result unless \<open>A\<close> is zero, or \<open>A\<close> is \<open>-1\<close> and \<open>B\<close> is
    \<open>- 2147483647\<close>. It has \<open>p - q\<close> fractional bits and the raw value \<^verbatim>\<open>(B + (A >> 1)) / A\<close>,
    computed on the operand as it is.
  \<^item> The compound \<^verbatim>\<open>a /= b\<close>, for \<open>0 \<le> p - q < 32\<close>, works on \<open>S\<close>, which is \<^verbatim>\<open>A << (p-q)\<close>. It has
    a result unless \<open>S\<close> is zero, or \<open>S\<close> is \<open>-1\<close> and \<open>B\<close> is \<open>- 2147483647\<close>. It keeps \<open>p\<close>
    fractional bits and sets the raw value to \<^verbatim>\<open>(B + (S >> 1)) / S\<close>.
\<close>

theorem operator_div_cross_type:
  "operator_div_x a b =
     (if qValue a = 0 \<or> (qValue a = - 1 \<and> qValue b = - 2147483647) then None
      else Some \<lparr>cQBits = cQBits a - cQBits b,
                 qValue = word_of_int (sint (qValue b + signed_drop_bit 1 (qValue a))
                                         sdiv sint (qValue a))\<rparr>) \<and>
   (0 \<le> cQBits a - cQBits b \<and> cQBits a - cQBits b < 32 \<longrightarrow>
      operator_div_assign_x a b =
        (if push_bit (nat (cQBits a - cQBits b)) (qValue a) = 0 \<or>
            (push_bit (nat (cQBits a - cQBits b)) (qValue a) = - 1 \<and>
             qValue b = - 2147483647)
         then None
         else Some \<lparr>cQBits = cQBits a,
                    qValue = word_of_int
                      (sint (qValue b +
                             signed_drop_bit 1 (push_bit (nat (cQBits a - cQBits b)) (qValue a)))
                       sdiv sint (push_bit (nat (cQBits a - cQBits b)) (qValue a)))\<rparr>))"
proof -
  have "operator_div_x a b =
      (if qValue a = 0 \<or> (qValue a = - 1 \<and> qValue b = - 2147483647) then None
       else Some \<lparr>cQBits = cQBits a - cQBits b,
                  qValue = word_of_int (sint (qValue b + signed_drop_bit 1 (qValue a))
                                          sdiv sint (qValue a))\<rparr>)"
    by (simp add: operator_div_x_def FIXEDPOINT_IMPL_DIVIDE_eq create_eq)
  moreover have "operator_div_assign_x a b =
      (if push_bit (nat (cQBits a - cQBits b)) (qValue a) = 0 \<or>
          (push_bit (nat (cQBits a - cQBits b)) (qValue a) = - 1 \<and>
           qValue b = - 2147483647)
       then None
       else Some \<lparr>cQBits = cQBits a,
                  qValue = word_of_int
                    (sint (qValue b +
                           signed_drop_bit 1 (push_bit (nat (cQBits a - cQBits b)) (qValue a)))
                     sdiv sint (push_bit (nat (cQBits a - cQBits b)) (qValue a)))\<rparr>)"
    if "0 \<le> cQBits a - cQBits b" and "cQBits a - cQBits b < 32"
    using that by (simp add: operator_div_assign_x_def int_shl_Some FIXEDPOINT_IMPL_DIVIDE_eq)
  ultimately show ?thesis
    by blast
qed

theorem operator_div_cross_type_witness:
  "0 \<le> cQBits \<lparr>cQBits = 8, qValue = 16\<rparr> - cQBits \<lparr>cQBits = 4, qValue = 200\<rparr> \<and>
   cQBits \<lparr>cQBits = 8, qValue = 16\<rparr> - cQBits \<lparr>cQBits = 4, qValue = 200\<rparr> < 32 \<and>
   operator_div_x \<lparr>cQBits = 8, qValue = 16\<rparr> \<lparr>cQBits = 4, qValue = 200\<rparr> =
     Some \<lparr>cQBits = 4, qValue = 13\<rparr> \<and>
   sint (200 :: tValue) sdiv sint (16 :: tValue) = 12 \<and>
   operator_div_assign_x \<lparr>cQBits = 8, qValue = 16\<rparr> \<lparr>cQBits = 4, qValue = 200\<rparr> =
     Some \<lparr>cQBits = 8, qValue = 1\<rparr> \<and>
   sint (200 :: tValue) sdiv sint (256 :: tValue) = 0"
  using operator_div_cross_type [of "\<lparr>cQBits = 8, qValue = 16\<rparr>" "\<lparr>cQBits = 4, qValue = 200\<rparr>"]
  by (simp add: signed_divide_int_def)

section \<open>Multiplication of two values of different types\<close>

text \<open>
  C4. For \<open>a\<close> with \<open>p\<close> fractional bits and \<open>b\<close> with \<open>q\<close>, the product \<^verbatim>\<open>a * b\<close> of the two
  types has \<open>p + q\<close> fractional bits, and its raw value is the product of the raw values
  with no rounding, computed in the 32 bits of the storage type: the integer product
  reduced modulo \<open>2 ^ 32\<close>, and the integer product itself where that fits.
\<close>

theorem operator_mul_cross_type:
  "\<exists>r. operator_mul_x a b = Some r \<and>
        cQBits r = cQBits a + cQBits b \<and>
        qValue r = qValue a * qValue b \<and>
        sint (qValue r) = signed_take_bit 31 (sint (qValue a) * sint (qValue b)) \<and>
        uint (qValue r) = (uint (qValue a) * uint (qValue b)) mod 2 ^ 32 \<and>
        (- (2 ^ 31) \<le> sint (qValue a) * sint (qValue b) \<and>
         sint (qValue a) * sint (qValue b) < 2 ^ 31 \<longrightarrow>
           sint (qValue r) = sint (qValue a) * sint (qValue b))"
  by (simp add: operator_mul_x_def create_eq sint_word_ariths uint_word_ariths
      signed_take_bit_int_eq_self)

theorem operator_mul_cross_type_witness:
  "operator_mul_x \<lparr>cQBits = 8, qValue = - 640\<rparr> \<lparr>cQBits = 4, qValue = 24\<rparr> =
     Some \<lparr>cQBits = 12, qValue = - 15360\<rparr> \<and>
   - (2 ^ 31) \<le> sint (- 640 :: tValue) * sint (24 :: tValue) \<and>
   sint (- 640 :: tValue) * sint (24 :: tValue) < 2 ^ 31 \<and>
   sint (- 15360 :: tValue) = sint (- 640 :: tValue) * sint (24 :: tValue)"
  using operator_mul_cross_type [of "\<lparr>cQBits = 8, qValue = - 640\<rparr>" "\<lparr>cQBits = 4, qValue = 24\<rparr>"]
  by (simp add: operator_mul_x_def create_eq)

section \<open>Widening and narrowing again\<close>

text \<open>
  Widening shifts left in 32 bits and checks nothing: a value of 8 fractional bits with
  raw value \<open>2 ^ 27\<close> widened to 12 bits wraps to the most negative \<^verbatim>\<open>int\<close>, and narrowing
  that to 8 bits gives raw \<open>- (2 ^ 27)\<close>.
\<close>

theorem widen_narrow_counterexample:
  "(increasedTo 12 \<lparr>cQBits = 8, qValue = 134217728\<rparr> \<bind> truncatedTo 8) =
     Some \<lparr>cQBits = 8, qValue = - 134217728\<rparr> \<and>
   (increasedTo 12 \<lparr>cQBits = 8, qValue = 134217728\<rparr> \<bind> truncatedTo 8) \<noteq>
     Some \<lparr>cQBits = 8, qValue = 134217728\<rparr>"
  by (simp add: increasedTo_def truncatedTo_def create_eq int_shl_def int_shr_def)

text \<open>
  C6, amended. For a value \<open>v\<close> at precision \<open>p\<close> and \<open>q > p\<close> with \<open>q - p < 32\<close>,
  \<^verbatim>\<open>v.increasedTo<q>().truncatedTo<p>()\<close> is \<open>v\<close> again exactly when the raw value of \<open>v\<close> leaves
  \<open>q - p\<close> bits of headroom: \<open>- 2 ^ (31 - (q - p)) \<le> rawV < 2 ^ (31 - (q - p))\<close>.
\<close>

theorem widen_narrow:
  assumes "cQBits v < q" and "q - cQBits v < 32"
  shows "(increasedTo q v \<bind> truncatedTo (cQBits v)) = Some v \<longleftrightarrow>
           - (2 ^ (31 - nat (q - cQBits v))) \<le> sint (qValue v) \<and>
           sint (qValue v) < 2 ^ (31 - nat (q - cQBits v))"
proof -
  let ?n = "nat (q - cQBits v)"
  have n: "?n < 32"
    using assms by simp
  have run: "(increasedTo q v \<bind> truncatedTo (cQBits v)) =
      Some \<lparr>cQBits = cQBits v, qValue = signed_drop_bit ?n (push_bit ?n (qValue v))\<rparr>"
    using assms by (simp add: increasedTo_def truncatedTo_def create_eq int_shl_def int_shr_def)
  have v: "v = \<lparr>cQBits = cQBits v, qValue = qValue v\<rparr>"
    by simp
  have "(increasedTo q v \<bind> truncatedTo (cQBits v)) = Some v \<longleftrightarrow>
      signed_drop_bit ?n (push_bit ?n (qValue v)) = qValue v"
    unfolding run by (subst (2) v) (simp del: tFixedPoint.simps add: tFixedPoint.ext_inject)
  also have "\<dots> \<longleftrightarrow> - (2 ^ (31 - ?n)) \<le> sint (qValue v) \<and> sint (qValue v) < 2 ^ (31 - ?n)"
    using sint_signed_drop_bit_bounds [OF n, of "push_bit ?n (qValue v)"]
      signed_drop_bit_push_bit [OF n, of "qValue v"]
    by auto
  finally show ?thesis .
qed

theorem widen_narrow_witness:
  "cQBits \<lparr>cQBits = 8, qValue = - 640\<rparr> < 12 \<and>
   12 - cQBits \<lparr>cQBits = 8, qValue = - 640\<rparr> < 32 \<and>
   - (2 ^ (31 - nat (12 - 8))) \<le> sint (- 640 :: tValue) \<and>
   sint (- 640 :: tValue) < 2 ^ (31 - nat (12 - 8)) \<and>
   (increasedTo 12 \<lparr>cQBits = 8, qValue = - 640\<rparr> \<bind> truncatedTo 8) =
     Some \<lparr>cQBits = 8, qValue = - 640\<rparr>"
  using widen_narrow [of "\<lparr>cQBits = 8, qValue = - 640\<rparr>" 12]
  by simp

section \<open>Rounding a value that lies half way\<close>

text \<open>
  The rounding macro adds the half unit in 32 bits before it shifts. At 8 fractional bits
  the raw value \<open>2 ^ 31 - 8\<close> lies half way between two values of 4 fractional bits; the
  sum wraps, and the result is raw \<open>- (2 ^ 27)\<close> where rounding up gives \<open>2 ^ 27\<close>.
\<close>

theorem roundedTo_half_counterexample:
  "sint (2147483640 :: tValue) mod 2 ^ nat (8 - 4) = 2 ^ nat (8 - 4 - 1) \<and>
   roundedTo 4 \<lparr>cQBits = 8, qValue = 2147483640\<rparr> = Some \<lparr>cQBits = 4, qValue = - 134217728\<rparr> \<and>
   \<lceil>real_of_int (sint (2147483640 :: tValue)) / 2 ^ nat (8 - 4)\<rceil> = 134217728 \<and>
   sint (- 134217728 :: tValue) < 134217728"
  by (simp add: roundedTo_def create_eq FIXEDPOINT_IMPL_ROUND_def int_shl_def int_shr_def)

text \<open>
  C7, amended. Let \<open>d = fractionalBits - targetBits\<close> with \<open>1 \<le> d < 32\<close>, and let the raw
  value lie exactly half way (\<open>rawV mod 2 ^ d = 2 ^ (d - 1)\<close>) with \<open>rawV + 2 ^ (d - 1)\<close>
  still an \<^verbatim>\<open>int\<close>. Then \<^verbatim>\<open>roundedTo<targetBits>()\<close> computes \<^verbatim>\<open>(rawV + 2^(d-1)) >> d\<close>, which is
  the ceiling of \<open>rawV / 2 ^ d\<close>: one above the floor and half a unit above the value,
  whatever the sign of the value and the parity of the floor.
\<close>

theorem roundedTo_half:
  assumes "1 \<le> cQBits v - t" and "cQBits v - t < 32"
    and "sint (qValue v) mod 2 ^ nat (cQBits v - t) = 2 ^ nat (cQBits v - t - 1)"
    and "sint (qValue v) + 2 ^ nat (cQBits v - t - 1) < 2 ^ 31"
  shows "\<exists>r. roundedTo t v = Some \<lparr>cQBits = t, qValue = r\<rparr> \<and>
           r = signed_drop_bit (nat (cQBits v - t)) (qValue v + 2 ^ nat (cQBits v - t - 1)) \<and>
           sint r = \<lceil>real_of_int (sint (qValue v)) / 2 ^ nat (cQBits v - t)\<rceil> \<and>
           sint r = sint (qValue v) div 2 ^ nat (cQBits v - t) + 1 \<and>
           sint r * 2 ^ nat (cQBits v - t) = sint (qValue v) + 2 ^ nat (cQBits v - t - 1)"
proof -
  let ?d = "nat (cQBits v - t)"
  have d: "1 \<le> ?d" and d1: "nat (cQBits v - t - 1) = ?d - 1"
    using assms(1) by simp_all
  let ?r = "signed_drop_bit ?d (qValue v + 2 ^ nat (cQBits v - t - 1))"
  have run: "roundedTo t v = Some \<lparr>cQBits = t, qValue = ?r\<rparr>"
    using assms(1,2) by (simp add: roundedTo_def FIXEDPOINT_IMPL_ROUND_eq create_eq)
  have "map_option sint (FIXEDPOINT_IMPL_ROUND (qValue v) (cQBits v - t)) =
      Some ((sint (qValue v) + 2 ^ nat (cQBits v - t - 1)) div 2 ^ ?d)"
    using assms(1,2,4) by (rule FIXEDPOINT_IMPL_ROUND_sint)
  then have r: "sint ?r = (sint (qValue v) + 2 ^ (?d - 1)) div 2 ^ ?d"
    using assms(1,2) by (simp add: FIXEDPOINT_IMPL_ROUND_eq d1)
  have half: "sint (qValue v) mod 2 ^ ?d = 2 ^ (?d - 1)"
    using assms(3) by (simp only: d1)
  note up = half_way_up [OF d half]
  show ?thesis
    using run r up by (simp add: d1)
qed

theorem roundedTo_half_witness:
  "1 \<le> cQBits \<lparr>cQBits = 8, qValue = 24\<rparr> - 4 \<and> cQBits \<lparr>cQBits = 8, qValue = 24\<rparr> - 4 < 32 \<and>
   sint (24 :: tValue) mod 2 ^ nat (8 - 4) = 2 ^ nat (8 - 4 - 1) \<and>
   sint (24 :: tValue) + 2 ^ nat (8 - 4 - 1) < 2 ^ 31 \<and>
   roundedTo 4 \<lparr>cQBits = 8, qValue = 24\<rparr> = Some \<lparr>cQBits = 4, qValue = 2\<rparr> \<and>
   sint (- 24 :: tValue) mod 2 ^ nat (8 - 4) = 2 ^ nat (8 - 4 - 1) \<and>
   sint (- 24 :: tValue) + 2 ^ nat (8 - 4 - 1) < 2 ^ 31 \<and>
   roundedTo 4 \<lparr>cQBits = 8, qValue = - 24\<rparr> = Some \<lparr>cQBits = 4, qValue = - 1\<rparr>"
  using roundedTo_half [of "\<lparr>cQBits = 8, qValue = 24\<rparr>" 4]
    roundedTo_half [of "\<lparr>cQBits = 8, qValue = - 24\<rparr>" 4]
  by simp

section \<open>Integer and fractional part\<close>

text \<open>
  The mask of \<^verbatim>\<open>fracPart()\<close> is \<^verbatim>\<open>(1 << QBits) - 1\<close>, a shift of the \<^verbatim>\<open>int\<close> literal \<^verbatim>\<open>1\<close> whatever
  the storage type is, and the template accepts any \<^verbatim>\<open>QBits\<close>. From 32 fractional bits on
  the shift has no value, so \<^verbatim>\<open>fracPart()\<close> has none and neither has the sum: the identity
  fails for the non-negative raw value 1 at 32 bits, and at the 36 bits of the type
  \<^verbatim>\<open>tFixedPoint< 36, long long >\<close> that the test program declares. With \<^verbatim>\<open>int\<close> storage
  \<^verbatim>\<open>intPart()\<close>, which is \<^verbatim>\<open>value_ >> QBits\<close>, has no value at 32 bits either.
\<close>

theorem intPart_fracPart_decomposition_counterexample:
  "0 \<le>s qValue \<lparr>cQBits = 32, qValue = 1\<rparr> \<and>
   fracPart \<lparr>cQBits = 32, qValue = 1\<rparr> = None \<and>
   intPart \<lparr>cQBits = 32, qValue = 1\<rparr> = None \<and>
   fracPart \<lparr>cQBits = 36, qValue = 1\<rparr> = None"
  by (simp add: fracPart_def intPart_def int_shl_def int_shr_def word_sle_eq)

text \<open>
  C9, amended. For a value \<open>v\<close> with \<open>QBits\<close> fractional bits, \<open>0 \<le> QBits < 32\<close>, and \<^verbatim>\<open>int\<close>
  storage, the identity \<^verbatim>\<open>intPart() * 2^QBits + fracPart() == qValue()\<close> holds in the
  arithmetic of the storage type if and only if the raw value is not negative or its low
  \<open>QBits\<close> bits are zero; for a negative value with a nonzero fraction the sum is
  \<^verbatim>\<open>qValue() - 2^QBits\<close>. The reason is in the last two lines: \<^verbatim>\<open>intPart()\<close> is the floor of
  the quotient, \<^verbatim>\<open>fracPart()\<close> is the remainder of the division that truncates towards
  zero, which has the sign of the value.
\<close>

theorem intPart_fracPart_decomposition:
  assumes "0 \<le> cQBits v" and "cQBits v < 32"
  shows "\<exists>i f. intPart v = Some i \<and> fracPart v = Some f \<and>
           (i * 2 ^ nat (cQBits v) + f = qValue v \<longleftrightarrow>
              0 \<le>s qValue v \<or> take_bit (nat (cQBits v)) (qValue v) = 0) \<and>
           (\<not> (0 \<le>s qValue v \<or> take_bit (nat (cQBits v)) (qValue v) = 0) \<longrightarrow>
              i * 2 ^ nat (cQBits v) + f = qValue v - 2 ^ nat (cQBits v)) \<and>
           sint i = sint (qValue v) div 2 ^ nat (cQBits v) \<and>
           sint f = sint (qValue v) smod 2 ^ nat (cQBits v)"
proof -
  let ?n = "nat (cQBits v)" and ?w = "qValue v"
  define f where "f = (if 0 \<le>s ?w then ?w AND mask ?n else - ((- ?w) AND mask ?n))"
  define i where "i = signed_drop_bit ?n ?w"
  have n: "?n < 32"
    using assms by simp
  have ip: "intPart v = Some i"
    using assms by (simp add: intPart_def int_shr_def i_def)
  have fp: "fracPart v = Some f"
    using assms by (simp add: fracPart_def int_shl_def mask_eq_exp_minus_1 f_def)
  have sum: "i * 2 ^ ?n + f = (if 0 \<le>s ?w \<or> take_bit ?n ?w = 0 then ?w else ?w - 2 ^ ?n)"
    unfolding i_def f_def using n by (rule decomposition_word(1))
  have rem: "sint f = sint ?w smod 2 ^ ?n"
    unfolding f_def using n by (rule decomposition_word(2))
  have quot: "sint i = sint ?w div 2 ^ ?n"
    unfolding i_def by (simp only: sint_signed_drop_bit_eq drop_bit_eq_div)
  have "(2 :: tValue) ^ ?n \<noteq> 0"
    using n by (simp add: exp_eq_zero_iff)
  then have neq: "?w - 2 ^ ?n \<noteq> ?w"
    by simp
  have iff: "i * 2 ^ ?n + f = ?w \<longleftrightarrow> 0 \<le>s ?w \<or> take_bit ?n ?w = 0"
    using neq by (simp only: sum split: if_split) blast
  have other: "\<not> (0 \<le>s ?w \<or> take_bit ?n ?w = 0) \<longrightarrow> i * 2 ^ ?n + f = ?w - 2 ^ ?n"
    by (simp only: sum split: if_split) blast
  from ip fp iff other quot rem show ?thesis
    by blast
qed

theorem intPart_fracPart_decomposition_witness:
  "0 \<le> cQBits \<lparr>cQBits = 4, qValue = - 20\<rparr> \<and> cQBits \<lparr>cQBits = 4, qValue = - 20\<rparr> < 32 \<and>
   intPart \<lparr>cQBits = 4, qValue = - 20\<rparr> = Some (- 2) \<and>
   fracPart \<lparr>cQBits = 4, qValue = - 20\<rparr> = Some (- 4) \<and>
   \<not> (0 \<le>s (- 20 :: tValue) \<or> take_bit (nat 4) (- 20 :: tValue) = 0) \<and>
   (- 2) * 2 ^ nat 4 + (- 4) = (- 20 :: tValue) - 2 ^ nat 4"
  using intPart_fracPart_decomposition [of "\<lparr>cQBits = 4, qValue = - 20\<rparr>"]
  by (simp add: intPart_def fracPart_def int_shl_def int_shr_def word_sle_eq)

section \<open>Termination of \<^verbatim>\<open>fracPlaces\<close>\<close>

text \<open>
  \<^verbatim>\<open>fracPlaces\<close> begins with \<^verbatim>\<open>absFracPart()\<close>, whose mask is \<^verbatim>\<open>(1 << QBits) - 1\<close> on the \<^verbatim>\<open>int\<close>
  literal \<^verbatim>\<open>1\<close>. From 32 fractional bits on that shift has no value, so there is no
  starting value of \<^verbatim>\<open>frac\<close> below \<open>2 ^ QBits\<close> and no result of \<^verbatim>\<open>fracPlaces\<close>, although
  \<open>QBits \<ge> 1\<close>; at 36 bits, as in \<^verbatim>\<open>tFixedPoint< 36, long long >\<close> of the test program, the
  shift \<^verbatim>\<open>1 << (QBits - 1)\<close> of the first mask has no value either.
\<close>

theorem fracPlaces_terminates_counterexample:
  "1 \<le> cQBits \<lparr>cQBits = 32, qValue = 1\<rparr> \<and>
   absFracPart \<lparr>cQBits = 32, qValue = 1\<rparr> = None \<and>
   fracPlaces \<lparr>cQBits = 32, qValue = 1\<rparr> 3 = None \<and>
   absFracPart \<lparr>cQBits = 36, qValue = 1\<rparr> = None \<and>
   int_shl 1 (cQBits \<lparr>cQBits = 36, qValue = 1\<rparr> - 1) = None \<and>
   fracPlaces \<lparr>cQBits = 36, qValue = 1\<rparr> 3 = None"
  by (simp add: fracPlaces_def absFracPart_def int_shl_def)

text \<open>
  C10, amended. For a value with \<open>1 \<le> QBits < 32\<close> and \<^verbatim>\<open>int\<close> storage, and any \<^verbatim>\<open>decimals\<close>,
  \<^verbatim>\<open>fracPlaces(decimals)\<close> returns. Its second \<^verbatim>\<open>while\<close> statement starts from
  \<^verbatim>\<open>frac = absFracPart()\<close>, which is below \<open>2 ^ QBits\<close>, and from \<^verbatim>\<open>mask = 1 << (QBits - 1)\<close>;
  each pass clears the bit of \<^verbatim>\<open>frac\<close> under the mask and halves the mask, and the
  statement ends after at most \<open>QBits\<close> passes.
\<close>

theorem fracPlaces_terminates:
  assumes "1 \<le> cQBits v" and "cQBits v < 32"
  shows "\<exists>frac0 mask0 r k.
           absFracPart v = Some frac0 \<and> uint frac0 < 2 ^ nat (cQBits v) \<and>
           int_shl 1 (cQBits v - 1) = Some mask0 \<and>
           fracPlaces_loop 0 frac0 0 (scale_decimals (unat decimals) 8) mask0 = Some (r, k) \<and>
           k \<le> nat (cQBits v) \<and>
           fracPlaces v decimals = Some (signed_drop_bit 4 (r + 8))"
proof -
  let ?n = "nat (cQBits v)"
  define f0 where "f0 = (if 0 \<le>s qValue v then qValue v else - qValue v) AND mask ?n"
  define m0 :: tValue where "m0 = 2 ^ (?n - 1)"
  have one: "int_shl 1 (cQBits v) = Some (push_bit ?n 1)"
    using assms by (simp add: int_shl_def)
  have f: "absFracPart v = Some f0"
    by (simp add: absFracPart_def one mask_eq_exp_minus_1 f0_def)
  have tb: "take_bit ?n f0 = f0"
    unfolding f0_def by (simp flip: take_bit_eq_mask)
  have lt: "uint f0 < 2 ^ ?n"
    unfolding f0_def by (rule and_mask_lt_2p)
  have n: "?n \<le> 31" "?n \<noteq> 0"
    using assms by simp_all
  have "nat (cQBits v - 1) = ?n - 1"
    by (simp add: nat_diff_distrib)
  then have m: "int_shl 1 (cQBits v - 1) = Some m0"
    using assms by (simp add: int_shl_def push_bit_eq_mult m0_def)
  have eight: "int_shl 1 3 = Some 8"
    by (simp add: int_shl_def)
  from fracPlaces_loop_terminates [OF n(1) tb, of 0 0 "scale_decimals (unat decimals) 8"]
  have "\<exists>r k. fracPlaces_loop 0 f0 0 (scale_decimals (unat decimals) 8) m0 = Some (r, k)
      \<and> k \<le> ?n"
    using n(2) unfolding m0_def by (simp only: if_False add_0)
  then obtain r k
    where run: "fracPlaces_loop 0 f0 0 (scale_decimals (unat decimals) 8) m0 = Some (r, k)"
      and k: "k \<le> ?n"
    by (elim exE conjE) (rule that)
  have "int_shr (r + 8) 4 = Some (signed_drop_bit 4 (r + 8))"
    by (simp add: int_shr_def)
  then have "fracPlaces v decimals = Some (signed_drop_bit 4 (r + 8))"
    by (simp add: fracPlaces_def f m eight run)
  with f lt m run k
  have "absFracPart v = Some f0 \<and> uint f0 < 2 ^ nat (cQBits v) \<and>
      int_shl 1 (cQBits v - 1) = Some m0 \<and>
      fracPlaces_loop 0 f0 0 (scale_decimals (unat decimals) 8) m0 = Some (r, k) \<and>
      k \<le> nat (cQBits v) \<and>
      fracPlaces v decimals = Some (signed_drop_bit 4 (r + 8))"
    by (intro conjI)
  then show ?thesis
    by (intro exI)
qed

theorem fracPlaces_terminates_witness:
  "1 \<le> cQBits \<lparr>cQBits = 8, qValue = - 589\<rparr> \<and> cQBits \<lparr>cQBits = 8, qValue = - 589\<rparr> < 32 \<and>
   absFracPart \<lparr>cQBits = 8, qValue = - 589\<rparr> = Some 77 \<and>
   fracPlaces_loop 0 77 0 (scale_decimals (unat (3 :: 32 word)) 8) 128 = Some (4812, 8) \<and>
   fracPlaces \<lparr>cQBits = 8, qValue = - 589\<rparr> 3 = Some 301"
proof -
  have f: "absFracPart \<lparr>cQBits = 8, qValue = - 589\<rparr> = Some 77"
    by (simp add: absFracPart_def int_shl_def word_sle_eq)
  have s: "scale_decimals (unat (3 :: 32 word)) 8 = 8000"
    by (simp add: scale_decimals_eq)
  have l: "fracPlaces_loop 0 77 0 8000 128 = Some (4812, 8)"
    by (simp add: loop_done loop_set loop_clear)
  have m: "int_shl 1 7 = Some 128"
    by (simp add: int_shl_def)
  have s': "scale_decimals 3 8 = (8000 :: 32 word)"
    by (simp add: scale_decimals_eq)
  from fracPlaces_terminates [of "\<lparr>cQBits = 8, qValue = - 589\<rparr>" 3]
  have "fracPlaces \<lparr>cQBits = 8, qValue = - 589\<rparr> 3 = Some 301"
    by (auto simp add: f s' l m)
  with f s l show ?thesis
    by simp
qed

section \<open>Decimal constants\<close>

text \<open>
  The macro multiplies \<^verbatim>\<open>1 << cQBits\<close> by \<^verbatim>\<open>frac\<close> in the type of \<^verbatim>\<open>frac\<close>, which is \<^verbatim>\<open>int\<close> for
  a literal below \<open>2 ^ 31\<close>, and nothing checks that the product fits.
  \<^verbatim>\<open>FIXEDPOINT_CONSTANT( tFixedPoint<16>, 2,71828 )\<close> yields the raw value 135196, about
  2.063, where the digits rescaled to 16 bits give 178145.
\<close>

theorem FIXEDPOINT_CONSTANT_counterexample:
  "FIXEDPOINT_CONSTANT 16 2 [7, 1, 8, 2, 8] = Some \<lparr>cQBits = 16, qValue = 135196\<rparr> \<and>
   tFixedPoint_parts 16 2
     (word_of_int ((2 ^ 16 * decimal_value [7, 1, 8, 2, 8] + 10 ^ length [7, 1, 8, 2, 8] div 2)
                     div 10 ^ length [7, 1, 8, 2, 8])) 16 =
     Some \<lparr>cQBits = 16, qValue = 178145\<rparr>"
  by (simp add: constant_eval)

text \<open>
  A digit sequence with a leading zero is read in base 8 where the macro uses it on its
  own and in base 10 where it is pasted: \<^verbatim>\<open>010\<close> contributes 8 thousandths (raw 770 at 8
  bits, where 10 thousandths give 771), and \<^verbatim>\<open>08\<close> is no literal at all.
\<close>

lemma FIXEDPOINT_CONSTANT_leading_zero:
  "FIXEDPOINT_CONSTANT 8 3 [0, 1, 0] = Some \<lparr>cQBits = 8, qValue = 770\<rparr> \<and>
   FIXEDPOINT_CONSTANT 8 3 [1] = Some \<lparr>cQBits = 8, qValue = 794\<rparr> \<and>
   tFixedPoint_parts 8 3
     (word_of_int ((2 ^ 8 * decimal_value [0, 1, 0] + 10 ^ length [0 :: nat, 1, 0] div 2)
                     div 10 ^ length [0 :: nat, 1, 0])) 8 =
     Some \<lparr>cQBits = 8, qValue = 771\<rparr> \<and>
   FIXEDPOINT_CONSTANT 8 3 [0, 8] = None"
  by (simp add: constant_eval)

text \<open>
  C8, amended. Let \<open>T\<close> have \<open>Q\<close> fractional bits, \<open>0 \<le> Q < 31\<close> (or \<open>Q = 31\<close> and \<^verbatim>\<open>frac\<close> zero),
  and let \<^verbatim>\<open>frac\<close> be a sequence of \<open>d\<close> decimal digits such that
  \<^item> \<^verbatim>\<open>frac\<close> is an integer literal with its base 10 value (no leading zero, or the same
    value in base 8), of a type \<open>tf\<close>, and \<^verbatim>\<open>2##frac\<close> is an integer literal, of a type \<open>tp\<close>
    (these are \<^verbatim>\<open>int\<close> below \<open>2 ^ 31\<close> and a signed 64-bit type from there on);
  \<^item> the product \<open>2 ^ Q * frac\<close> is a value of \<open>tf\<close> and the sum \<open>2 ^ Q * frac + 10 ^ d div 2\<close> is a
    value of \<open>tp\<close>, so that neither operation overflows.

  Then \<^verbatim>\<open>FIXEDPOINT_CONSTANT(T, dec, frac)\<close> is \<^verbatim>\<open>T(dec, m, Q)\<close> with
  \<open>m = (2 ^ Q * frac + 10 ^ d div 2) div 10 ^ d\<close>, which is \<open>frac * 2 ^ Q / 10 ^ d\<close> rounded to
  the nearest integer, half way cases upwards; its raw value is \<^verbatim>\<open>(dec << Q) + m\<close> when
  \<^verbatim>\<open>dec >= 0\<close> and \<^verbatim>\<open>(dec << Q) - m\<close> when \<^verbatim>\<open>dec < 0\<close>.
\<close>

theorem FIXEDPOINT_CONSTANT_value:
  assumes "0 \<le> Q" and "Q < 32" and "Q < 31 \<or> decimal_value frac' = 0"
    and "integer_literal frac' = Some (tf, decimal_value frac')"
    and "integer_literal (2 # frac') = Some (tp, vp)"
    and "convert tf (2 ^ nat Q * decimal_value frac') = 2 ^ nat Q * decimal_value frac'"
    and "convert tp (2 ^ nat Q * decimal_value frac' + 10 ^ length frac' div 2) =
           2 ^ nat Q * decimal_value frac' + 10 ^ length frac' div 2"
  shows "FIXEDPOINT_CONSTANT Q dec frac' =
           tFixedPoint_parts Q dec
             (word_of_int ((2 ^ nat Q * decimal_value frac' + 10 ^ length frac' div 2)
                             div 10 ^ length frac')) Q \<and>
         FIXEDPOINT_CONSTANT Q dec frac' =
           Some \<lparr>cQBits = Q,
                 qValue =
                   (if 0 \<le>s dec
                    then push_bit (nat Q) dec +
                      word_of_int ((2 ^ nat Q * decimal_value frac' + 10 ^ length frac' div 2)
                                     div 10 ^ length frac')
                    else push_bit (nat Q) dec -
                      word_of_int ((2 ^ nat Q * decimal_value frac' + 10 ^ length frac' div 2)
                                     div 10 ^ length frac'))\<rparr> \<and>
         (2 ^ nat Q * decimal_value frac' + 10 ^ length frac' div 2) div 10 ^ length frac' =
           \<lfloor>real_of_int (decimal_value frac') * 2 ^ nat Q / 10 ^ length frac' + 1 / 2\<rfloor>"
proof -
  define F where "F = decimal_value frac'"
  define D :: int where "D = 10 ^ length frac'"
  define P :: int where "P = 2 ^ nat Q * F"
  define S where "S = P + D div 2"
  have f: "integer_literal frac' = Some (tf, F)"
    using assms(4) by (simp only: F_def)
  have F0: "0 \<le> F" and fitF: "convert tf F = F"
    and digits: "list_all (\<lambda>d. d < 10) frac'" and "frac' \<noteq> []"
    using literal_fits [OF f] by blast+
  have D0: "0 < D"
    unfolding D_def by simp
  have evenD: "even D"
    unfolding D_def using \<open>frac' \<noteq> []\<close> by (cases frac') simp_all
  have P0: "0 \<le> P"
    unfolding P_def using F0 by simp
  have H0: "0 \<le> D div 2"
    using D0 by (simp add: pos_imp_zdiv_nonneg_iff)
  have S0: "0 \<le> S"
    unfolding S_def using P0 H0 by simp
  have fitP: "convert tf P = P"
    using assms(6) by (simp only: P_def F_def)
  have fitS: "convert tp S = S"
    using assms(7) by (simp only: S_def P_def F_def D_def)
  have "integer_literal (2 # frac') = decimal_literal (2 * D + F)"
    using literal_pasted [OF digits, of 2] by (simp add: F_def D_def)
  then have d2: "decimal_literal (2 * D + F) = Some (tp, vp)"
    using assms(5) by simp
  have vp: "vp = 2 * D + F" and fit2: "convert tp (2 * D + F) = 2 * D + F"
    using decimal_literal_fits [OF _ d2] F0 D0 by simp_all
  have f2: "integer_literal (2 # frac') = Some (tp, 2 * D + F)"
    using assms(5) by (simp only: vp)
  have d2': "decimal_literal (2 * D + F) = Some (tp, 2 * D + F)"
    using d2 by (simp only: vp)
  obtain t1 where d1: "decimal_literal (D + F) = Some (t1, D + F)"
    and r1: "conversion_rank t1 \<le> conversion_rank tp"
    using decimal_literal_below [OF _ _ d2', of "D + F"] F0 D0 by auto
  have "integer_literal (1 # frac') = decimal_literal (D + F)"
    using literal_pasted [OF digits, of 1] by (simp add: F_def D_def)
  then have f1: "integer_literal (1 # frac') = Some (t1, D + F)"
    using d1 by simp
  have fit1: "convert t1 (D + F) = D + F"
    using decimal_literal_fits [OF _ d1] F0 D0 by simp
  have rf: "conversion_rank tf \<le> conversion_rank tp"
    using f _ d2' by (rule literal_rank_below) (use D0 in simp)
  have fitD: "convert tp D = D"
    using _ _ fit2 by (rule convert_le) (use D0 F0 in simp_all)
  have fitH: "convert tp (D div 2) = D div 2"
    using H0 _ fitD by (rule convert_le) (use D0 in simp)
  have "convert tp (D + F) = D + F"
    using _ fit1 r1 by (rule convert_mono) (use D0 F0 in simp)
  then have diff: "c_sub (tp, 2 * D + F) (t1, D + F) = (tp, D)"
    using r1 fit2 fitD by (simp add: c_sub_def common_type_left)
  have half: "c_div (tp, D) (CInt, 2) = Some (tp, D div 2)"
    using _ _ fitD by (rule c_div_nonneg) (use D0 in simp_all)
  have one: "int_shl 1 Q = Some (2 ^ nat Q)"
    using assms(1,2) by (simp add: int_shl_def push_bit_eq_mult)
  have "convert tf (convert tf (sint ((2 :: tValue) ^ nat Q)) * F) = P"
  proof (cases "Q < 31")
    case True
    then have "sint ((2 :: tValue) ^ nat Q) = 2 ^ nat Q"
      using assms(1) by (intro sint_one_shifted) simp
    moreover have "(2 :: int) ^ nat Q < 2 ^ 31"
      using True assms(1) by (intro power_strict_increasing) simp_all
    then have "convert tf (2 ^ nat Q) = 2 ^ nat Q"
      by (intro convert_small) simp_all
    ultimately show ?thesis
      using fitP by (simp add: P_def)
  next
    case False
    then have "F = 0"
      using assms(3) by (simp add: F_def)
    then show ?thesis
      by (cases tf) (simp_all add: P_def)
  qed
  then have mul: "c_mul (CInt, sint ((2 :: tValue) ^ nat Q)) (tf, F) = (tf, P)"
    using fitF by (simp add: c_mul_def common_type_right)
  have "convert tp P = P"
    using P0 fitP rf by (rule convert_mono)
  then have add: "c_add (tf, P) (tp, D div 2) = (tp, S)"
    using rf fitH fitS by (simp add: c_add_def common_type_right S_def)
  have q: "c_div (tp, S) (tp, D) = Some (tp, S div D)"
    using S0 D0 fitS fitD by (rule c_div_nonneg) simp
  have run: "FIXEDPOINT_CONSTANT Q dec frac' = tFixedPoint_parts Q dec (word_of_int (S div D)) Q"
    by (simp only: FIXEDPOINT_CONSTANT_def one f f2 f1 Option.bind.bind_lunit diff half mul add q snd_conv)
  have parts: "tFixedPoint_parts Q dec (word_of_int (S div D)) Q =
      Some \<lparr>cQBits = Q,
            qValue = (if 0 \<le>s dec then push_bit (nat Q) dec + word_of_int (S div D)
                      else push_bit (nat Q) dec - word_of_int (S div D))\<rparr>"
    using assms(1,2) by (simp add: tFixedPoint_parts_def int_shl_def)
  have "S div D = \<lfloor>real_of_int (2 ^ nat Q * F) / real_of_int D + 1 / 2\<rfloor>"
    unfolding S_def P_def using D0 evenD by (rule round_half_up)
  then have rnd: "S div D = \<lfloor>real_of_int F * 2 ^ nat Q / 10 ^ length frac' + 1 / 2\<rfloor>"
    by (simp add: D_def mult.commute)
  from run parts rnd show ?thesis
    unfolding S_def P_def F_def D_def by simp
qed

theorem FIXEDPOINT_CONSTANT_value_witness:
  "(0 :: int) \<le> 4 \<and> (4 :: int) < 32 \<and> (4 :: int) < 31 \<and>
   integer_literal [2, 5] = Some (CInt, decimal_value [2, 5]) \<and>
   integer_literal (2 # [2, 5]) = Some (CInt, 225) \<and>
   convert CInt (2 ^ nat 4 * decimal_value [2, 5]) = 2 ^ nat 4 * decimal_value [2, 5] \<and>
   convert CInt (2 ^ nat 4 * decimal_value [2, 5] + 10 ^ length [2 :: nat, 5] div 2) =
     2 ^ nat 4 * decimal_value [2, 5] + 10 ^ length [2 :: nat, 5] div 2 \<and>
   FIXEDPOINT_CONSTANT 4 (- 1) [2, 5] = Some \<lparr>cQBits = 4, qValue = - 20\<rparr> \<and>
   integer_literal [0, 0, 1] = Some (CInt, decimal_value [0, 0, 1]) \<and>
   FIXEDPOINT_CONSTANT 8 3 [0, 0, 1] = Some \<lparr>cQBits = 8, qValue = 768\<rparr> \<and>
   integer_literal [9, 9, 9, 9, 9, 9, 9, 9, 9, 9] =
     Some (CLong, decimal_value [9, 9, 9, 9, 9, 9, 9, 9, 9, 9]) \<and>
   integer_literal (2 # [9, 9, 9, 9, 9, 9, 9, 9, 9, 9]) = Some (CLong, 29999999999) \<and>
   convert CLong (2 ^ nat 8 * decimal_value [9, 9, 9, 9, 9, 9, 9, 9, 9, 9]) =
     2 ^ nat 8 * decimal_value [9, 9, 9, 9, 9, 9, 9, 9, 9, 9] \<and>
   FIXEDPOINT_CONSTANT 8 0 [9, 9, 9, 9, 9, 9, 9, 9, 9, 9] = Some \<lparr>cQBits = 8, qValue = 256\<rparr>"
  using FIXEDPOINT_CONSTANT_value [where Q = 4 and frac' = "[2, 5]" and tf = CInt and tp = CInt
      and vp = 225 and dec = "- 1"]
    FIXEDPOINT_CONSTANT_value [where Q = 8 and frac' = "[0, 0, 1]" and tf = CInt and tp = CInt
      and vp = 2001 and dec = 3]
    FIXEDPOINT_CONSTANT_value [where Q = 8 and frac' = "[9, 9, 9, 9, 9, 9, 9, 9, 9, 9]"
      and tf = CLong and tp = CLong and vp = 29999999999 and dec = 0]
  by (simp add: integer_literal_def decimal_literal_def octal_literal_def decimal_value_def
      octal_value_def word_sle_eq tFixedPoint_parts_def int_shl_def
      flip: minus_exp_eq_not_mask)

section \<open>Comparisons with the scalar on the left\<close>

text \<open>
  C5. The free comparison operators with the scalar on the left are claimed to return
  the counterpart of the written comparison (\<^verbatim>\<open>n < v\<close> is true if and only if \<^verbatim>\<open>v >= n\<close>, and
  so on) for every storage-type integer \<open>n\<close>. As the header stands, with floating-point
  support, the scalar reaches the member comparison as a \<^verbatim>\<open>double\<close> and through \<^verbatim>\<open>rounded_\<close>,
  which adds \<^verbatim>\<open>0.5\<close> and truncates towards zero: \<open>-1\<close> at 8 bits becomes the raw value \<open>-255\<close>,
  where \<^verbatim>\<open>tFixedPoint(-1)\<close> holds \<open>-256\<close>. So for \<open>n = -1\<close> and \<open>v\<close> equal to \<open>-1\<close> at 8 bits,
  \<^verbatim>\<open>n < v\<close> returns false although \<^verbatim>\<open>v >= tFixedPoint(n)\<close> is true, and for \<open>v\<close> one unit above
  \<open>-1\<close>, \<^verbatim>\<open>n <= v\<close> returns false although \<open>v\<close> does not equal \<open>n\<close>. Compiled without
  floating-point support the same \<^verbatim>\<open>n < v\<close> returns true.
\<close>

theorem operator_lt_free_negative_scalar:
  "rounded' 8 (double_of_tValue (- 1)) = Some (- 255) \<and>
   tFixedPoint_int 8 (- 1) = Some \<lparr>cQBits = 8, qValue = - 256\<rparr> \<and>
   operator_lt_free True (- 1) \<lparr>cQBits = 8, qValue = - 256\<rparr> = Some False \<and>
   operator_ge \<lparr>cQBits = 8, qValue = - 256\<rparr> \<lparr>cQBits = 8, qValue = - 256\<rparr> \<and>
   operator_lt_free False (- 1) \<lparr>cQBits = 8, qValue = - 256\<rparr> = Some True \<and>
   operator_le_free True (- 1) \<lparr>cQBits = 8, qValue = - 255\<rparr> = Some False \<and>
   operator_le \<lparr>cQBits = 8, qValue = - 256\<rparr> \<lparr>cQBits = 8, qValue = - 255\<rparr> \<and>
   \<not> operator_eq \<lparr>cQBits = 8, qValue = - 255\<rparr> \<lparr>cQBits = 8, qValue = - 256\<rparr>"
  by (simp add: tFixedPoint_int_def operator_lt_free_def operator_le_free_def
      operator_ge_double_def operator_gt_double_def rounded'_def int_shl_def
      tValue_of_double_def double_of_tValue_def ceiling_def
      operator_ge_def operator_le_def operator_eq_def word_sle_eq word_sless_alt
      flip: minus_exp_eq_not_mask)

text \<open>
  Where \<^verbatim>\<open>rounded_\<close> is exact the operators do what is claimed. Let \<open>v\<close> have \<open>QBits\<close>
  fractional bits, \<open>0 \<le> QBits < 32\<close>, and let \<open>n\<close> be a storage-type integer; with
  floating-point support let \<open>n\<close> be non-negative with \<open>n * 2 ^ QBits\<close> below \<open>2 ^ 31\<close>. Write
  \<open>c\<close> for \<^verbatim>\<open>tFixedPoint(n)\<close>, whose raw value is \<^verbatim>\<open>n << QBits\<close> in the storage type (it is
  \<open>n * 2 ^ QBits\<close> where that is in range). Then \<^verbatim>\<open>n < v\<close> returns \<^verbatim>\<open>v >= c\<close>, that is
  \<^verbatim>\<open>c <= v\<close>; \<^verbatim>\<open>n <= v\<close> returns \<^verbatim>\<open>v > c\<close>, that is \<^verbatim>\<open>c < v\<close>; \<^verbatim>\<open>n >= v\<close> returns \<^verbatim>\<open>v < c\<close>, that
  is \<^verbatim>\<open>c > v\<close>; and \<^verbatim>\<open>n > v\<close> returns \<^verbatim>\<open>v <= c\<close>, that is \<^verbatim>\<open>c >= v\<close>. Each differs from the
  comparison that is written exactly when \<open>v\<close> equals \<open>c\<close>.
\<close>

lemma scalar_comparisons_exact:
  assumes "0 \<le> cQBits v" and "cQBits v < 32"
    and "fp_support \<Longrightarrow> 0 \<le> sint n \<and> sint n * 2 ^ nat (cQBits v) < 2 ^ 31"
  shows "\<exists>c. tFixedPoint_int (cQBits v) n = Some c \<and>
           operator_lt_free fp_support n v = Some (operator_ge v c) \<and>
           operator_le_free fp_support n v = Some (operator_gt v c) \<and>
           operator_ge_free fp_support n v = Some (operator_lt v c) \<and>
           operator_gt_free fp_support n v = Some (operator_le v c) \<and>
           operator_ge v c = operator_le c v \<and>
           operator_gt v c = operator_lt c v \<and>
           operator_lt v c = operator_gt c v \<and>
           operator_le v c = operator_ge c v \<and>
           (operator_lt_free fp_support n v \<noteq> Some (operator_lt c v) \<longleftrightarrow> operator_eq v c) \<and>
           (operator_le_free fp_support n v \<noteq> Some (operator_le c v) \<longleftrightarrow> operator_eq v c) \<and>
           (operator_ge_free fp_support n v \<noteq> Some (operator_ge c v) \<longleftrightarrow> operator_eq v c) \<and>
           (operator_gt_free fp_support n v \<noteq> Some (operator_gt c v) \<longleftrightarrow> operator_eq v c) \<and>
           (- (2 ^ 31) \<le> sint n * 2 ^ nat (cQBits v) \<and> sint n * 2 ^ nat (cQBits v) < 2 ^ 31 \<longrightarrow>
              sint (qValue c) = sint n * 2 ^ nat (cQBits v))"
proof -
  define c where "c = \<lparr>cQBits = cQBits v, qValue = push_bit (nat (cQBits v)) n\<rparr>"
  have c: "tFixedPoint_int (cQBits v) n = Some c"
    unfolding c_def using assms(1,2) by (rule tFixedPoint_int_Some)
  have r: "rounded' (cQBits v) (double_of_tValue n) = Some (qValue c)" if fp_support
    using assms(1,2) assms(3) [OF that] by (simp add: rounded'_of_scalar c_def)
  have lt: "operator_lt_free fp_support n v = Some (operator_ge v c)"
    by (cases fp_support) (simp_all add: operator_lt_free_def operator_ge_double_def r c operator_ge_def)
  have le: "operator_le_free fp_support n v = Some (operator_gt v c)"
    by (cases fp_support) (simp_all add: operator_le_free_def operator_gt_double_def r c operator_gt_def)
  have ge: "operator_ge_free fp_support n v = Some (operator_lt v c)"
    by (cases fp_support) (simp_all add: operator_ge_free_def operator_lt_double_def r c operator_lt_def)
  have gt: "operator_gt_free fp_support n v = Some (operator_le v c)"
    by (cases fp_support) (simp_all add: operator_gt_free_def operator_le_double_def r c operator_le_def)
  have swap: "operator_ge v c = operator_le c v" "operator_gt v c = operator_lt c v"
    "operator_lt v c = operator_gt c v" "operator_le v c = operator_ge c v"
    by (simp_all add: operator_ge_def operator_le_def operator_gt_def operator_lt_def)
  have d1: "operator_lt_free fp_support n v \<noteq> Some (operator_lt c v) \<longleftrightarrow> operator_eq v c"
    using sle_not_sless_iff [of "qValue c" "qValue v"]
    by (simp add: lt operator_ge_def operator_lt_def operator_eq_def)
  have d2: "operator_le_free fp_support n v \<noteq> Some (operator_le c v) \<longleftrightarrow> operator_eq v c"
    using sle_not_sless_iff [of "qValue c" "qValue v"]
    by (auto simp add: le operator_gt_def operator_le_def operator_eq_def)
  have d3: "operator_ge_free fp_support n v \<noteq> Some (operator_ge c v) \<longleftrightarrow> operator_eq v c"
    using sle_not_sless_iff [of "qValue v" "qValue c"]
    by (auto simp add: ge operator_lt_def operator_ge_def operator_eq_def)
  have d4: "operator_gt_free fp_support n v \<noteq> Some (operator_gt c v) \<longleftrightarrow> operator_eq v c"
    using sle_not_sless_iff [of "qValue v" "qValue c"]
    by (auto simp add: gt operator_le_def operator_gt_def operator_eq_def)
  have m: "- (2 ^ 31) \<le> sint n * 2 ^ nat (cQBits v) \<and> sint n * 2 ^ nat (cQBits v) < 2 ^ 31 \<longrightarrow>
      sint (qValue c) = sint n * 2 ^ nat (cQBits v)"
    by (simp add: c_def sint_push_bit_product)
  from c lt le ge gt swap d1 d2 d3 d4 m show ?thesis
    by blast
qed

lemma scalar_comparisons_exact_example:
  "0 \<le> cQBits \<lparr>cQBits = 8, qValue = 768\<rparr> \<and> cQBits \<lparr>cQBits = 8, qValue = 768\<rparr> < 32 \<and>
   0 \<le> sint (3 :: tValue) \<and> sint (3 :: tValue) * 2 ^ nat 8 < 2 ^ 31 \<and>
   tFixedPoint_int 8 3 = Some \<lparr>cQBits = 8, qValue = 768\<rparr> \<and>
   operator_lt_free True 3 \<lparr>cQBits = 8, qValue = 768\<rparr> = Some True \<and>
   operator_le_free True 3 \<lparr>cQBits = 8, qValue = 768\<rparr> = Some False \<and>
   operator_ge_free True 3 \<lparr>cQBits = 8, qValue = 768\<rparr> = Some False \<and>
   operator_gt_free True 3 \<lparr>cQBits = 8, qValue = 768\<rparr> = Some True \<and>
   operator_lt_free False (- 1) \<lparr>cQBits = 8, qValue = - 256\<rparr> = Some True"
  using scalar_comparisons_exact [of "\<lparr>cQBits = 8, qValue = 768\<rparr>" True 3]
    scalar_comparisons_exact [of "\<lparr>cQBits = 8, qValue = - 256\<rparr>" False "- 1"]
  by (auto simp add: tFixedPoint_int_def int_shl_def operator_ge_def operator_gt_def
      operator_lt_def operator_le_def word_sle_eq word_sless_alt
      simp flip: minus_exp_eq_not_mask)

end
